theory Spec2Isabelle
  imports Main "HOL-Library.AList" "HOL-Library.Multiset"
begin

section \<open>Data model\<close>

text \<open>
  A Python \<open>dict\<close> is an association list in insertion order with distinct keys;
  \<open>AList.update\<close> overwrites a present key in place and appends an absent one, as
  Python's item assignment does. Quantities and identifiers are Python integers (\<open>int\<close>).
\<close>

type_synonym materials = "(string \<times> int) list"

text \<open>The \<open>Test\<close> named tuple of \<open>matrix_generator.py\<close>.\<close>

record part =
  name :: string
  base_name :: string
  cnd :: string
  batch :: int
  machine :: int
  sample :: int
  print_time :: int
  print_materials :: materials
  print_max_samples :: int

text \<open>
  The exceptions the code can raise. The four \<open>RuntimeError\<close>s of \<open>Build.add_part\<close> are
  told apart by their message; the other constructors are Python's built-in exceptions of
  the same name.
\<close>

datatype error =
    BatchMismatch
  | MachineMismatch
  | DuplicatePart
  | MaterialExceeded string
  | ZeroDivisionError
  | UnboundLocalError
  | KeyError string
  | IndexError
  | ValueError

fun is_RuntimeError :: "error \<Rightarrow> bool" where
  "is_RuntimeError BatchMismatch = True"
| "is_RuntimeError MachineMismatch = True"
| "is_RuntimeError DuplicatePart = True"
| "is_RuntimeError (MaterialExceeded key) = True"
| "is_RuntimeError e = False"

text \<open>
  The attributes of a \<open>Build\<close> object: \<open>parts_dict\<close> is \<open>_parts\<close>, a dict from
  base name to a dict from condition to part; \<open>build_print_time\<close>,
  \<open>build_print_materials\<close>, \<open>build_batch\<close>, \<open>build_machine\<close> and \<open>first_part\<close> are the
  underscore attributes of the same names.
\<close>

record build =
  build_name :: string
  max_material :: materials
  parts_dict :: "(string \<times> (string \<times> part) list) list"
  build_print_time :: int
  build_print_materials :: materials
  build_batch :: "int option"
  build_machine :: "int option"
  first_part :: bool

definition default_max_material :: materials where
  "default_max_material = [(''CFA'', 50), (''OFA'', 800)]"

definition Build :: "string \<Rightarrow> int option \<Rightarrow> int option \<Rightarrow> materials \<Rightarrow> build" where
  "Build n b m mm =
     \<lparr>build_name = n, max_material = mm, parts_dict = [], build_print_time = 0,
      build_print_materials = [], build_batch = b, build_machine = m, first_part = True\<rparr>"

text \<open>\<open>d.get(k, dflt)\<close>\<close>

definition dict_get :: "('k \<times> 'v) list \<Rightarrow> 'k \<Rightarrow> 'v \<Rightarrow> 'v" where
  "dict_get d k dflt = (case map_of d k of None \<Rightarrow> dflt | Some v \<Rightarrow> v)"

section \<open>Build.add_part\<close>

text \<open>
  The material check of lines 99-104: the first key of the part's materials, in
  iteration order, at which the exception is raised, if any.
\<close>

fun check_materials :: "build \<Rightarrow> bool \<Rightarrow> materials \<Rightarrow> string option" where
  "check_materials b ignore_checks [] = None"
| "check_materials b ignore_checks ((key, qty) # rest) =
     (if dict_get (build_print_materials b) key 0 + qty > dict_get (max_material b) key 0
         \<and> \<not> ignore_checks
      then Some key
      else check_materials b ignore_checks rest)"

text \<open>The accounting loop of lines 108-112.\<close>

fun charge_materials :: "materials \<Rightarrow> materials \<Rightarrow> materials" where
  "charge_materials used [] = used"
| "charge_materials used ((key, qty) # rest) =
     charge_materials
       (case map_of used key of
          Some u \<Rightarrow> AList.update key (u + qty) used
        | None \<Rightarrow> AList.update key qty used)
       rest"

text \<open>Lines 89-92: seed the internal part list.\<close>

definition seed_parts :: "part \<Rightarrow> build \<Rightarrow> build" where
  "seed_parts p b =
     (case map_of (parts_dict b) (base_name p) of
        Some grp \<Rightarrow> b
      | None \<Rightarrow> b\<lparr>parts_dict := AList.update (base_name p) [] (parts_dict b)\<rparr>)"

text \<open>Line 115.\<close>

definition store_part :: "part \<Rightarrow> build \<Rightarrow> build" where
  "store_part p b =
     b\<lparr>parts_dict :=
         AList.update (base_name p)
           (AList.update (cnd p) p (dict_get (parts_dict b) (base_name p) []))
           (parts_dict b)\<rparr>"

text \<open>Lines 94-115, on a build whose part list is seeded.\<close>

definition add_checked :: "part \<Rightarrow> bool \<Rightarrow> build \<Rightarrow> error option \<times> build" where
  "add_checked p ignore_checks b =
     (let grp = dict_get (parts_dict b) (base_name p) [] in
      if cnd p \<in> set (map fst grp) \<and> \<not> ignore_checks then (Some DuplicatePart, b)
      else if print_max_samples p = 0 then (Some ZeroDivisionError, b)
      else if int (length grp) mod print_max_samples p = 0 then
        (case check_materials b ignore_checks (print_materials p) of
           Some key \<Rightarrow> (Some (MaterialExceeded key), b)
         | None \<Rightarrow>
             (None,
              store_part p
                (b\<lparr>build_print_time := build_print_time b + print_time p,
                   build_print_materials :=
                     charge_materials (build_print_materials b) (print_materials p)\<rparr>)))
      else (None, store_part p b))"

text \<open>
  \<open>add_part\<close> mutates the build and may raise: the model returns the exception raised, if
  any, together with the build as the call leaves it, so that what a failed call has
  already written stays visible.
\<close>

definition add_part :: "part \<Rightarrow> bool \<Rightarrow> build \<Rightarrow> error option \<times> build" where
  "add_part p ignore_checks b =
     (let b1 = (if build_batch b = None then b\<lparr>build_batch := Some (batch p)\<rparr> else b);
          b2 = (if build_machine b1 = None then b1\<lparr>build_machine := Some (machine p)\<rparr> else b1);
          ign = (ignore_checks \<or> first_part b2);
          b3 = (if first_part b2 then b2\<lparr>first_part := False\<rparr> else b2)
      in if build_batch b3 \<noteq> Some (batch p) \<and> \<not> ign then (Some BatchMismatch, b3)
         else if build_machine b3 \<noteq> Some (machine p) \<and> \<not> ign then (Some MachineMismatch, b3)
         else add_checked p ign (seed_parts p b3))"

text \<open>The read-only properties \<open>base_names\<close> and \<open>parts\<close>.\<close>

definition base_names :: "build \<Rightarrow> string list" where
  "base_names b = map fst (filter (\<lambda>(bn, grp). length grp \<noteq> 0) (parts_dict b))"

definition parts :: "build \<Rightarrow> part list" where
  "parts b = concat (map (\<lambda>(bn, grp). map snd grp) (parts_dict b))"

text \<open>
  A sequence of \<open>add_part\<close> calls on one build, each call with its own flag; a call that
  raises leaves the build as it is at the raise and the sequence goes on.
\<close>

fun add_part_calls :: "build \<Rightarrow> (part \<times> bool) list \<Rightarrow> build" where
  "add_part_calls b [] = b"
| "add_part_calls b ((p, ignore_checks) # rest) =
     add_part_calls (snd (add_part p ignore_checks b)) rest"

section \<open>BuildCollection\<close>

text \<open>
  The keyword arguments a collection passes to every \<open>Build\<close>; an absent
  \<open>max_material\<close> takes the constructor's default.
\<close>

record kwargs =
  kw_batch :: "int option"
  kw_machine :: "int option"
  kw_max_material :: "materials option"

record build_collection =
  builds :: "build list"
  build_kwargs :: kwargs
  num_builds :: int

text \<open>\<open>'{}'.format(i)\<close> for an integer.\<close>

fun str_nat :: "nat \<Rightarrow> string" where
  "str_nat n =
     (if n < 10 then [char_of (48 + n)]
      else str_nat (n div 10) @ [char_of (48 + n mod 10)])"

definition str_int :: "int \<Rightarrow> string" where
  "str_int i = (if i < 0 then CHR ''-'' # str_nat (nat (- i)) else str_nat (nat i))"

definition new_build :: "int \<Rightarrow> kwargs \<Rightarrow> build" where
  "new_build i kw =
     Build (''B-'' @ str_int i) (kw_batch kw) (kw_machine kw)
       (case kw_max_material kw of None \<Rightarrow> default_max_material | Some mm \<Rightarrow> mm)"

definition BuildCollection :: "int \<Rightarrow> kwargs \<Rightarrow> build_collection" where
  "BuildCollection n kw =
     \<lparr>builds = map (\<lambda>i. new_build (int i) kw) [0..<nat n], build_kwargs = kw, num_builds = n\<rparr>"

text \<open>
  \<open>spawn_build\<close> appends a build and returns it. Build objects are referred to by their
  position in \<open>builds\<close>, which never changes: the code only appends to the list.
\<close>

definition spawn_build :: "build_collection \<Rightarrow> nat \<times> build_collection" where
  "spawn_build c =
     (length (builds c),
      c\<lparr>builds := builds c @ [new_build (num_builds c) (build_kwargs c)],
        num_builds := num_builds c + 1\<rparr>)"

text \<open>
  \<open>filter_builds\<close>. The local variable \<open>builds\<close> is bound only by the first
  comprehension that runs; \<open>None\<close> stands for the unbound variable, and reading it raises
  \<open>UnboundLocalError\<close>. The result lists the selected builds by position.
\<close>

definition fb_batch :: "build_collection \<Rightarrow> int option \<Rightarrow> nat list option" where
  "fb_batch c batch_arg =
     (case batch_arg of
        Some bt \<Rightarrow>
          Some (filter (\<lambda>i. build_batch (builds c ! i) = Some bt \<or> build_batch (builds c ! i) = None)
                  [0..<length (builds c)])
      | None \<Rightarrow> None)"

definition fb_machine ::
  "build_collection \<Rightarrow> int option \<Rightarrow> nat list option \<Rightarrow> error + nat list option" where
  "fb_machine c machine_arg local =
     (case machine_arg of
        Some mc \<Rightarrow>
          (case local of
             None \<Rightarrow> Inl UnboundLocalError
           | Some bs \<Rightarrow>
               Inr (Some (filter (\<lambda>i. build_machine (builds c ! i) = Some mc
                                      \<or> build_machine (builds c ! i) = None) bs)))
      | None \<Rightarrow> Inr local)"

fun fb_materials ::
  "build_collection \<Rightarrow> materials \<Rightarrow> nat list option \<Rightarrow> error + nat list option" where
  "fb_materials c [] local = Inr local"
| "fb_materials c ((key, qty) # rest) local =
     (case local of
        None \<Rightarrow> Inl UnboundLocalError
      | Some bs \<Rightarrow>
          fb_materials c rest
            (Some (filter (\<lambda>i. dict_get (max_material (builds c ! i)) key 0
                                - dict_get (build_print_materials (builds c ! i)) key 0 \<ge> qty) bs)))"

definition fb_base_name ::
  "build_collection \<Rightarrow> materials \<Rightarrow> string option \<Rightarrow> nat list option \<Rightarrow> error + nat list option" where
  "fb_base_name c materials_arg base_name_arg local =
     (case base_name_arg of
        Some bn \<Rightarrow>
          (case local of
             None \<Rightarrow> Inl UnboundLocalError
           | Some bs \<Rightarrow> Inr (Some (filter (\<lambda>i. bn \<in> set (base_names (builds c ! i))) bs)))
      | None \<Rightarrow> fb_materials c materials_arg local)"

definition filter_builds ::
  "build_collection \<Rightarrow> int option \<Rightarrow> int option \<Rightarrow> materials \<Rightarrow> string option \<Rightarrow> error + nat list" where
  "filter_builds c batch_arg machine_arg materials_arg base_name_arg =
     (case fb_machine c machine_arg (fb_batch c batch_arg) of
        Inl e \<Rightarrow> Inl e
      | Inr local \<Rightarrow>
          (case fb_base_name c materials_arg base_name_arg local of
             Inl e \<Rightarrow> Inl e
           | Inr None \<Rightarrow> Inl UnboundLocalError
           | Inr (Some bs) \<Rightarrow> Inr bs))"

text \<open>
  One attempt of the loop body of \<open>assign_part\<close>: \<open>add_part\<close> (not forced) on the build
  at position \<open>i\<close>, which is mutated in place whether the call raises or not.
\<close>

definition try_add :: "part \<Rightarrow> nat \<Rightarrow> build_collection \<Rightarrow> error option \<times> build_collection" where
  "try_add p i c =
     (case add_part p False (builds c ! i) of
        (r, b') \<Rightarrow> (r, c\<lparr>builds := (builds c)[i := b']\<rparr>))"

text \<open>
  The \<open>while not part_assigned\<close> loop of \<open>assign_part\<close>. \<open>random.choice\<close> is resolved by
  an arbitrary generator \<open>rnd\<close>: its \<open>k\<close>-th draw, reduced modulo the length, indexes the
  candidate list; \<open>k\<close> counts the draws made so far. \<open>except RuntimeError\<close> catches the four
  failures of \<open>add_part\<close> only. After a spawn the candidate list is empty, so
  \<open>eligible_builds.remove\<close> in the handler would raise \<open>ValueError\<close>.
\<close>

function assign_loop ::
  "(nat \<Rightarrow> nat) \<Rightarrow> part \<Rightarrow> nat list \<Rightarrow> nat list option \<Rightarrow> nat \<Rightarrow> build_collection
     \<Rightarrow> error option \<times> nat \<times> build_collection" where
  "assign_loop rnd p eligible lazy k c =
     (if eligible = [] then
        (case lazy of
           Some l \<Rightarrow> assign_loop rnd p l None k c
         | None \<Rightarrow>
             (case spawn_build c of
                (i, c1) \<Rightarrow>
                  (case try_add p i c1 of
                     (None, c2) \<Rightarrow> (None, k, c2)
                   | (Some e, c2) \<Rightarrow>
                       (Some (if is_RuntimeError e then ValueError else e), k, c2))))
      else
        (case try_add p (eligible ! (rnd k mod length eligible)) c of
           (None, c') \<Rightarrow> (None, Suc k, c')
         | (Some e, c') \<Rightarrow>
             if is_RuntimeError e
             then assign_loop rnd p
                    (remove1 (eligible ! (rnd k mod length eligible)) eligible) lazy (Suc k) c'
             else (Some e, Suc k, c')))"
  by pat_completeness auto
termination
proof (relation "measures [\<lambda>(rnd, p, eligible, lazy, k, c). (case lazy of None \<Rightarrow> 0 | Some l \<Rightarrow> 1),
                           \<lambda>(rnd, p, eligible, lazy, k, c). length eligible]", goal_cases)
  case 1
  show ?case by simp
next
  case (2 rnd p eligible lazy k c l)
  then show ?case by simp
next
  case (3 rnd p eligible lazy k c x1 x2 e)
  have "eligible ! (rnd k mod length eligible) \<in> set eligible"
    using 3(1) by simp
  then have "length (remove1 (eligible ! (rnd k mod length eligible)) eligible) < length eligible"
    using 3(1) by (simp add: length_remove1)
  then show ?case by simp
qed

declare assign_loop.simps [simp del]

definition assign_part ::
  "(nat \<Rightarrow> nat) \<Rightarrow> part \<Rightarrow> nat \<Rightarrow> build_collection \<Rightarrow> error option \<times> nat \<times> build_collection" where
  "assign_part rnd p k c =
     (case filter_builds c (Some (batch p)) (Some (machine p)) (print_materials p) None of
        Inl e \<Rightarrow> (Some e, k, c)
      | Inr eligible_lazy \<Rightarrow>
          (case filter_builds c (Some (batch p)) (Some (machine p)) [] (Some (base_name p)) of
             Inl e \<Rightarrow> (Some e, k, c)
           | Inr eligible \<Rightarrow> assign_loop rnd p eligible (Some eligible_lazy) k c))"

text \<open>
  \<open>sorted(..., reverse=True)\<close> and \<open>list.sort(reverse=True)\<close>: CPython reverses the list,
  sorts it stably in ascending order and reverses the result, so that elements with equal
  keys keep their original order.
\<close>

definition sort_reverse :: "('a \<Rightarrow> int) \<Rightarrow> 'a list \<Rightarrow> 'a list" where
  "sort_reverse f xs = rev (sort_key f (rev xs))"

text \<open>
  Lines 229-230: one in-place sort of the parts per key; \<open>x.print_materials[key]\<close> raises
  \<open>KeyError\<close> before the pass reorders anything when some part lacks the key. The list is
  returned as the loop leaves it.
\<close>

fun sort_parts :: "string list \<Rightarrow> part list \<Rightarrow> error option \<times> part list" where
  "sort_parts [] ps = (None, ps)"
| "sort_parts (key # keys) ps =
     (if list_ex (\<lambda>p. map_of (print_materials p) key = None) ps then (Some (KeyError key), ps)
      else sort_parts keys (sort_reverse (\<lambda>p. dict_get (print_materials p) key 0) ps))"

text \<open>Lines 223-227: the keys of the first build's \<open>max_material\<close>, by descending value.\<close>

definition ranked_keys :: "materials \<Rightarrow> string list" where
  "ranked_keys mm = map fst (sort_reverse snd mm)"

text \<open>Lines 232-233; an exception of \<open>assign_part\<close> ends the loop.\<close>

fun assign_each ::
  "(nat \<Rightarrow> nat) \<Rightarrow> part list \<Rightarrow> nat \<Rightarrow> build_collection \<Rightarrow> error option \<times> nat \<times> build_collection" where
  "assign_each rnd [] k c = (None, k, c)"
| "assign_each rnd (p # ps) k c =
     (case assign_part rnd p k c of
        (None, k', c') \<Rightarrow> assign_each rnd ps k' c'
      | (Some e, k', c') \<Rightarrow> (Some e, k', c'))"

text \<open>
  \<open>assign_parts\<close> returns the exception raised, if any, the parts list as the call leaves
  it (it is sorted in place), the number of random draws made and the collection.
\<close>

definition assign_parts ::
  "(nat \<Rightarrow> nat) \<Rightarrow> part list \<Rightarrow> nat \<Rightarrow> build_collection
     \<Rightarrow> error option \<times> part list \<times> nat \<times> build_collection" where
  "assign_parts rnd ps k c =
     (case builds c of
        [] \<Rightarrow> (Some IndexError, ps, k, c)
      | b0 # bs \<Rightarrow>
          (case sort_parts (ranked_keys (max_material b0)) ps of
             (Some e, ps') \<Rightarrow> (Some e, ps', k, c)
           | (None, ps') \<Rightarrow>
               (case assign_each rnd ps' k c of (r, k', c') \<Rightarrow> (r, ps', k', c'))))"

section \<open>Auxiliary notions for the properties\<close>

text \<open>
  A build as the constructor and any \<open>add_part\<close> calls leave it: either no call has been
  made yet, or batch and machine are set (parts carry integer batch and machine ids).
\<close>

definition set_up :: "build \<Rightarrow> bool" where
  "set_up b = (first_part b \<or> (build_batch b \<noteq> None \<and> build_machine b \<noteq> None))"

text \<open>
  Capacity respected for one material: the accumulated quantity of \<open>m\<close>, when
  \<open>print_materials\<close> has an entry for it, is at most its capacity
  (\<open>max_material.get(m, 0)\<close>, as \<open>add_part\<close> reads it).
\<close>

definition material_within :: "build \<Rightarrow> string \<Rightarrow> bool" where
  "material_within b m =
     (case map_of (build_print_materials b) m of
        None \<Rightarrow> True
      | Some used \<Rightarrow> used \<le> dict_get (max_material b) m 0)"

text \<open>Concrete parts and builds used to exercise the theorems.\<close>

definition ex_part_A :: part where
  "ex_part_A = \<lparr>name = ''A'', base_name = ''T'', cnd = ''c1'', batch = 0, machine = 0,
     sample = 0, print_time = 10, print_materials = [(''CFA'', 10)], print_max_samples = 1\<rparr>"

definition ex_part_C :: part where
  "ex_part_C = \<lparr>name = ''C'', base_name = ''U'', cnd = ''c2'', batch = 0, machine = 0,
     sample = 0, print_time = 10, print_materials = [(''CFA'', 45)], print_max_samples = 1\<rparr>"

definition ex_build_A :: build where
  "ex_build_A = add_part_calls (Build ''B-0'' None None default_max_material) [(ex_part_A, False)]"

definition ex_part_big :: part where
  "ex_part_big = \<lparr>name = ''G'', base_name = ''T'', cnd = ''c1'', batch = 0, machine = 0,
     sample = 0, print_time = 10, print_materials = [(''CFA'', 100)], print_max_samples = 1\<rparr>"

definition ex_build_big :: build where
  "ex_build_big =
     add_part_calls (Build ''B-0'' None None default_max_material) [(ex_part_big, False)]"

definition ex_part_O700 :: part where
  "ex_part_O700 = \<lparr>name = ''O700'', base_name = ''T'', cnd = ''c5'', batch = 0, machine = 0,
     sample = 0, print_time = 10, print_materials = [(''OFA'', 700)], print_max_samples = 1\<rparr>"

definition ex_part_O200 :: part where
  "ex_part_O200 = \<lparr>name = ''O200'', base_name = ''T'', cnd = ''c6'', batch = 0, machine = 0,
     sample = 0, print_time = 10, print_materials = [(''OFA'', 200)], print_max_samples = 1\<rparr>"

definition ex_part_D :: part where
  "ex_part_D = \<lparr>name = ''D'', base_name = ''T'', cnd = ''c2'', batch = 0, machine = 0,
     sample = 1, print_time = 10, print_materials = [(''CFA'', 30)], print_max_samples = 1\<rparr>"

definition ex_part_E :: part where
  "ex_part_E = \<lparr>name = ''E'', base_name = ''T'', cnd = ''c3'', batch = 1, machine = 1,
     sample = 0, print_time = 10, print_materials = [(''CFA'', 1)], print_max_samples = 1\<rparr>"

definition ex_part_M :: part where
  "ex_part_M = \<lparr>name = ''M'', base_name = ''T'', cnd = ''c3'', batch = 0, machine = 1,
     sample = 0, print_time = 10, print_materials = [(''CFA'', 1)], print_max_samples = 1\<rparr>"

definition ex_part_F :: part where
  "ex_part_F = \<lparr>name = ''F'', base_name = ''T'', cnd = ''c1'', batch = 0, machine = 0,
     sample = 1, print_time = 10, print_materials = [(''XYZ'', 5)], print_max_samples = 1\<rparr>"

definition ex_part_X :: part where
  "ex_part_X = \<lparr>name = ''X'', base_name = ''T'', cnd = ''c4'', batch = 0, machine = 0,
     sample = 0, print_time = 10, print_materials = [(''CFA'', 1), (''XYZ'', 5)],
     print_max_samples = 1\<rparr>"

text \<open>
  The shape \<open>add_part\<close> keeps \<open>_parts\<close> in: keys are distinct at both levels (it is a
  dict of dicts) and every part is stored under its own base name and condition.
\<close>

definition keyed :: "build \<Rightarrow> bool" where
  "keyed b =
     (distinct (map fst (parts_dict b))
      \<and> list_all (\<lambda>(bn, grp). distinct (map fst grp)
                     \<and> list_all (\<lambda>(c, p). base_name p = bn \<and> cnd p = c) grp) (parts_dict b))"

text \<open>Every call of a sequence of \<open>add_part\<close> calls succeeds.\<close>

fun add_parts_ok :: "build \<Rightarrow> (part \<times> bool) list \<Rightarrow> bool" where
  "add_parts_ok b [] = True"
| "add_parts_ok b ((p, ignore_checks) # rest) =
     (fst (add_part p ignore_checks b) = None
      \<and> add_parts_ok (snd (add_part p ignore_checks b)) rest)"

definition ex_group :: "(part \<times> bool) list" where
  "ex_group =
     [(ex_part_A\<lparr>print_max_samples := 2\<rparr>, False),
      (ex_part_D\<lparr>print_max_samples := 2\<rparr>, False),
      (ex_part_M\<lparr>print_max_samples := 2, machine := 0\<rparr>, False),
      (ex_part_X\<lparr>print_max_samples := 2\<rparr>, True)]"

text \<open>
  The ordering policy in the specification's words. \<open>required key p\<close> is the quantity of
  material \<open>key\<close> that part \<open>p\<close> requires. \<open>prio_ge keys a b\<close>: part \<open>a\<close> may stand
  before \<open>b\<close> when the first key is the primary descending criterion and the following
  keys break ties, in turn. \<open>stable_descending_sort f xs ys\<close>: \<open>ys\<close> is \<open>xs\<close> reordered so
  that \<open>f\<close> descends, elements of equal \<open>f\<close> keeping their order.
\<close>

definition required :: "string \<Rightarrow> part \<Rightarrow> int" where
  "required key p = dict_get (print_materials p) key 0"

fun prio_ge :: "string list \<Rightarrow> part \<Rightarrow> part \<Rightarrow> bool" where
  "prio_ge [] a b = True"
| "prio_ge (key # keys) a b =
     (required key a > required key b \<or> (required key a = required key b \<and> prio_ge keys a b))"

definition stable_descending_sort :: "('a \<Rightarrow> int) \<Rightarrow> 'a list \<Rightarrow> 'a list \<Rightarrow> bool" where
  "stable_descending_sort f xs ys =
     (mset ys = mset xs \<and> sorted_wrt (\<ge>) (map f ys)
      \<and> list_all (\<lambda>x. filter (\<lambda>y. f y = f x) ys = filter (\<lambda>y. f y = f x) xs) xs)"

definition ex_kwargs :: kwargs where
  "ex_kwargs = \<lparr>kw_batch = None, kw_machine = None, kw_max_material = None\<rparr>"

definition ex_collection :: build_collection where
  "ex_collection = BuildCollection 1 ex_kwargs"

definition ex_part_S1 :: part where
  "ex_part_S1 = \<lparr>name = ''S1'', base_name = ''S'', cnd = ''c1'', batch = 0, machine = 0,
     sample = 0, print_time = 5, print_materials = [(''CFA'', 5), (''OFA'', 10)],
     print_max_samples = 1\<rparr>"

definition ex_part_S2 :: part where
  "ex_part_S2 = \<lparr>name = ''S2'', base_name = ''S'', cnd = ''c2'', batch = 0, machine = 0,
     sample = 0, print_time = 5, print_materials = [(''CFA'', 7), (''OFA'', 1)],
     print_max_samples = 1\<rparr>"

definition ex_part_S3 :: part where
  "ex_part_S3 = \<lparr>name = ''S3'', base_name = ''S'', cnd = ''c3'', batch = 0, machine = 0,
     sample = 0, print_time = 5, print_materials = [(''CFA'', 5), (''OFA'', 20)],
     print_max_samples = 1\<rparr>"

text \<open>
  What a collection stores: \<open>stored_in\<close> lists the set of parts of each build,
  \<open>stored_count c p\<close> is the number of builds of \<open>c\<close> that hold part \<open>p\<close>.
  \<open>fresh_empty\<close>: a build that has not had its first \<open>add_part\<close> call holds nothing.
  \<open>added p c c'\<close>: from \<open>c\<close> to \<open>c'\<close>, part \<open>p\<close> was put into one existing build or
  into one appended build, and nothing else about the stored parts changed.
\<close>

definition stored_in :: "build_collection \<Rightarrow> part set list" where
  "stored_in c = map (\<lambda>b. set (parts b)) (builds c)"

definition stored_count :: "build_collection \<Rightarrow> part \<Rightarrow> nat" where
  "stored_count c p = length (filter (\<lambda>b. p \<in> set (parts b)) (builds c))"

definition fresh_empty :: "build_collection \<Rightarrow> bool" where
  "fresh_empty c = list_all (\<lambda>b. first_part b \<longrightarrow> parts_dict b = []) (builds c)"

definition added :: "part \<Rightarrow> build_collection \<Rightarrow> build_collection \<Rightarrow> bool" where
  "added p c c' =
     ((\<exists>i<length (builds c). stored_in c' = (stored_in c)[i := insert p (stored_in c ! i)])
      \<or> stored_in c' = stored_in c @ [{p}])"

definition ex_part_S4 :: part where
  "ex_part_S4 = \<lparr>name = ''S4'', base_name = ''S'', cnd = ''c4'', batch = 0, machine = 0,
     sample = 0, print_time = 5, print_materials = [(''CFA'', 45), (''OFA'', 1)],
     print_max_samples = 1\<rparr>"

definition ex_parts :: "part list" where
  "ex_parts = [ex_part_S1, ex_part_S2, ex_part_S3, ex_part_S4]"

definition ex_collection_A :: build_collection where
  "ex_collection_A = snd (snd (assign_part (\<lambda>n. 0) ex_part_A 0 (BuildCollection 1 ex_kwargs)))"

definition ex_part_O20 :: part where
  "ex_part_O20 = \<lparr>name = ''O20'', base_name = ''S'', cnd = ''c5'', batch = 0, machine = 0,
     sample = 0, print_time = 5, print_materials = [(''OFA'', 20)], print_max_samples = 1\<rparr>"

section \<open>Properties of filter_builds\<close>

lemma fb_materials_unbound:
  "fb_materials c ms None = (if ms = [] then Inr None else Inl UnboundLocalError)"
  by (cases ms) auto

text \<open>
  Claim C8. Every parameter of \<open>filter_builds\<close> is meant to be optional, but the local
  variable \<open>builds\<close> is bound only under \<open>if batch is not None\<close>: with \<open>batch\<close> omitted,
  every later statement reads an unbound local and the call raises
  \<open>UnboundLocalError\<close>, whatever the other arguments are, instead of returning the builds
  that satisfy the remaining filters.
\<close>

theorem filter_builds_batch_omitted:
  "filter_builds c None machine_arg materials_arg base_name_arg = Inl UnboundLocalError"
  by (cases machine_arg; cases base_name_arg)
     (simp_all add: filter_builds_def fb_batch_def fb_machine_def fb_base_name_def
        fb_materials_unbound)

text \<open>
  When \<open>base_name\<close> is given, the materials loop sits in the \<open>else\<close> branch and never
  runs: the call does the same whatever the \<open>materials\<close> argument is.
\<close>

lemma filter_builds_base_name_ignores_materials:
  "filter_builds c batch_arg machine_arg materials_arg (Some bn) =
     filter_builds c batch_arg machine_arg materials_arg' (Some bn)"
  by (cases machine_arg; cases batch_arg)
     (simp_all add: filter_builds_def fb_batch_def fb_machine_def fb_base_name_def)

section \<open>Properties of Build.add_part\<close>

lemma update_absent: "map_of al k = None \<Longrightarrow> AList.update k v al = al @ [(k, v)]"
  by (induction al) (auto split: if_splits)

lemma set_update_subset: "set (AList.update k v al) \<subseteq> insert (k, v) (set al)"
  by (induction al) auto

lemma seed_parts_fields:
  "max_material (seed_parts p b) = max_material b"
  "build_print_time (seed_parts p b) = build_print_time b"
  "build_print_materials (seed_parts p b) = build_print_materials b"
  "build_batch (seed_parts p b) = build_batch b"
  "build_machine (seed_parts p b) = build_machine b"
  "first_part (seed_parts p b) = first_part b"
  "build_name (seed_parts p b) = build_name b"
  by (simp_all add: seed_parts_def split: option.splits)

lemma store_part_fields:
  "max_material (store_part p b) = max_material b"
  "build_print_time (store_part p b) = build_print_time b"
  "build_print_materials (store_part p b) = build_print_materials b"
  "build_batch (store_part p b) = build_batch b"
  "build_machine (store_part p b) = build_machine b"
  "first_part (store_part p b) = first_part b"
  "build_name (store_part p b) = build_name b"
  by (simp_all add: store_part_def)

lemma parts_seed: "parts (seed_parts p b) = parts b"
  by (simp add: seed_parts_def parts_def update_absent split: option.splits)

lemma base_names_seed: "base_names (seed_parts p b) = base_names b"
  by (simp add: seed_parts_def base_names_def update_absent split: option.splits)

lemma seed_parts_dict:
  "parts_dict (seed_parts p b) =
     (if map_of (parts_dict b) (base_name p) = None
      then parts_dict b @ [(base_name p, [])] else parts_dict b)"
  by (simp add: seed_parts_def update_absent split: option.splits)

lemma seed_parts_idle: "map_of (parts_dict b) (base_name p) \<noteq> None \<Longrightarrow> seed_parts p b = b"
  by (auto simp add: seed_parts_def split: option.splits)

lemma seed_parts_eq: "seed_parts p b = b\<lparr>parts_dict := parts_dict (seed_parts p b)\<rparr>"
  by (simp add: seed_parts_def split: option.splits)

lemma add_checked_failure:
  assumes "add_checked p ign b = (Some e, b')"
  shows "b' = b"
  using assms by (auto simp: add_checked_def Let_def split: if_splits option.splits)

lemma seed_parts_group:
  "map_of (parts_dict (seed_parts p b)) (base_name p)
     = Some (dict_get (parts_dict b) (base_name p) [])"
  by (auto simp add: seed_parts_def dict_get_def update_conv' split: option.splits)

lemma seed_parts_dict_get:
  "dict_get (parts_dict (seed_parts p b)) (base_name p) [] = dict_get (parts_dict b) (base_name p) []"
  by (simp add: dict_get_def[of "parts_dict (seed_parts p b)"] seed_parts_group)

lemma add_checked_duplicate:
  assumes "add_checked p ign (seed_parts p b) = (Some DuplicatePart, b')"
  shows "map_of (parts_dict b) (base_name p) \<noteq> None"
proof
  assume "map_of (parts_dict b) (base_name p) = None"
  then have "dict_get (parts_dict (seed_parts p b)) (base_name p) [] = []"
    by (simp add: seed_parts_group dict_get_def)
  then show False
    using assms by (simp add: add_checked_def Let_def split: if_splits option.splits)
qed

lemma add_checked_error_kinds:
  assumes "add_checked p ign b = (Some e, b')"
  shows "e = DuplicatePart \<or> e = ZeroDivisionError \<or> (\<exists>key. e = MaterialExceeded key)"
  using assms by (auto simp: add_checked_def Let_def split: if_splits option.splits)

lemma check_materials_forced: "check_materials b True ms = None"
  by (induction ms) auto

lemma add_part_runtime_error_not_forced:
  assumes "add_part p ignore_checks b = (Some e, b')" and "is_RuntimeError e"
  shows "\<not> ignore_checks \<and> \<not> first_part b"
  using assms
  by (auto simp: add_part_def Let_def add_checked_def check_materials_forced
      split: if_splits option.splits)

lemma add_part_later:
  assumes "\<not> first_part b" and "build_batch b = Some bt" and "build_machine b = Some mc"
  shows "add_part p ign b =
     (if bt \<noteq> batch p \<and> \<not> ign then (Some BatchMismatch, b)
      else if mc \<noteq> machine p \<and> \<not> ign then (Some MachineMismatch, b)
      else add_checked p ign (seed_parts p b))"
  using assms by (simp add: add_part_def Let_def)

lemma add_part_failure_set_up:
  assumes "add_part p ignore_checks b = (Some e, b')" and "is_RuntimeError e"
    and "build_batch b \<noteq> None" and "build_machine b \<noteq> None"
  shows "(if \<exists>key. e = MaterialExceeded key then b' = seed_parts p b else b' = b)"
proof -
  from assms(1,2) have nf: "\<not> first_part b"
    using add_part_runtime_error_not_forced by blast
  from assms(3,4) obtain bt mc where bm: "build_batch b = Some bt" "build_machine b = Some mc"
    by auto
  note eq = add_part_later[OF nf bm, of p ignore_checks]
  show ?thesis
  proof (cases "e = BatchMismatch \<or> e = MachineMismatch")
    case True
    then show ?thesis
      using assms(1) eq add_checked_error_kinds[of p ignore_checks "seed_parts p b" e b']
      by (auto split: if_splits)
  next
    case False
    then have ac: "add_checked p ignore_checks (seed_parts p b) = (Some e, b')"
      using assms(1) eq by (auto split: if_splits)
    then have b': "b' = seed_parts p b"
      by (rule add_checked_failure)
    show ?thesis
    proof (cases "e = DuplicatePart")
      case True
      with ac have "map_of (parts_dict b) (base_name p) \<noteq> None"
        using add_checked_duplicate by blast
      then show ?thesis using b' True by (simp add: seed_parts_idle)
    next
      case False
      then show ?thesis
        using add_checked_error_kinds[OF ac] assms(2) b' by auto
    qed
  qed
qed

lemma add_checked_fields:
  "max_material (snd (add_checked p ign b)) = max_material b"
  "build_batch (snd (add_checked p ign b)) = build_batch b"
  "build_machine (snd (add_checked p ign b)) = build_machine b"
  "first_part (snd (add_checked p ign b)) = first_part b"
  "build_name (snd (add_checked p ign b)) = build_name b"
  by (simp_all add: add_checked_def Let_def store_part_fields split: option.splits)

lemma add_part_fields:
  "max_material (snd (add_part p ign b)) = max_material b"
  "build_name (snd (add_part p ign b)) = build_name b"
  "first_part (snd (add_part p ign b)) = False"
  "build_batch (snd (add_part p ign b))
     = (case build_batch b of None \<Rightarrow> Some (batch p) | Some bt \<Rightarrow> Some bt)"
  "build_machine (snd (add_part p ign b))
     = (case build_machine b of None \<Rightarrow> Some (machine p) | Some mc \<Rightarrow> Some mc)"
  by (simp_all add: add_part_def Let_def add_checked_fields seed_parts_fields
      split: option.splits)

lemma add_part_set_up: "set_up (snd (add_part p ign b))"
  by (simp add: set_up_def add_part_fields split: option.splits)

lemma add_part_calls_set_up: "set_up b \<Longrightarrow> set_up (add_part_calls b calls)"
  by (induction b calls rule: add_part_calls.induct) (simp_all add: add_part_set_up)

lemma Build_set_up: "set_up (Build n bt mc mm)"
  by (simp add: set_up_def Build_def)

text \<open>
  Claim C2, as amended. On a build made by the constructor and any earlier \<open>add_part\<close>
  calls, a call that fails with one of the four \<open>RuntimeError\<close>s leaves batch, machine,
  accumulated time and materials, the flattened parts list and the base names as they
  were. The only thing it can change is \<open>_parts\<close>: a \<open>MaterialExceeded\<close> failure for a
  base name not yet in \<open>_parts\<close> leaves the empty group that was seeded for it.
\<close>

theorem add_part_failure_state:
  assumes "b = add_part_calls (Build n bt mc mm) calls"
    and "add_part p ignore_checks b = (Some e, b')" and "is_RuntimeError e"
  shows "b' = b\<lparr>parts_dict := parts_dict b'\<rparr>
       \<and> parts b' = parts b \<and> base_names b' = base_names b
       \<and> (parts_dict b' = parts_dict b
          \<or> (\<exists>key. e = MaterialExceeded key) \<and> map_of (parts_dict b) (base_name p) = None
             \<and> parts_dict b' = parts_dict b @ [(base_name p, [])])"
proof -
  have "set_up b"
    using assms(1) Build_set_up add_part_calls_set_up by simp
  moreover have "\<not> first_part b"
    using assms(2,3) add_part_runtime_error_not_forced by blast
  ultimately have "build_batch b \<noteq> None" "build_machine b \<noteq> None"
    by (simp_all add: set_up_def)
  from add_part_failure_set_up[OF assms(2,3) this]
  have cases: "b' = seed_parts p b \<or> b' = b"
    and mat: "b' \<noteq> b \<longrightarrow> (\<exists>key. e = MaterialExceeded key)"
    by (auto split: if_splits)
  from cases show ?thesis
  proof
    assume "b' = b"
    then show ?thesis by simp
  next
    assume b': "b' = seed_parts p b"
    show ?thesis
    proof (cases "map_of (parts_dict b) (base_name p) = None")
      case True
      then have "parts_dict b' = parts_dict b @ [(base_name p, [])]"
        using b' by (simp add: seed_parts_dict)
      moreover from this have "b' \<noteq> b" by auto
      ultimately show ?thesis
        using b' mat True seed_parts_eq[of p b] parts_seed[of p b] base_names_seed[of p b]
        by simp
    next
      case False
      then have "b' = b" using b' by (simp add: seed_parts_idle)
      then show ?thesis by simp
    qed
  qed
qed

text \<open>
  Claim C2: as stated it fails. A \<open>MaterialExceeded\<close> failure for a base name the build
  has not seen leaves the seeded empty group in \<open>_parts\<close>.
\<close>

lemma ex_build_A_eq:
  "ex_build_A = \<lparr>build_name = ''B-0'', max_material = [(''CFA'', 50), (''OFA'', 800)],
     parts_dict = [(''T'', [(''c1'', ex_part_A)])], build_print_time = 10,
     build_print_materials = [(''CFA'', 10)], build_batch = Some 0, build_machine = Some 0,
     first_part = False\<rparr>"
  by code_simp

theorem add_part_failure_mutates_parts:
  "fst (add_part ex_part_C False ex_build_A) = Some (MaterialExceeded ''CFA'')
   \<and> parts_dict ex_build_A = [(''T'', [(''c1'', ex_part_A)])]
   \<and> parts_dict (snd (add_part ex_part_C False ex_build_A))
       = [(''T'', [(''c1'', ex_part_A)]), (''U'', [])]
   \<and> snd (add_part ex_part_C False ex_build_A) \<noteq> ex_build_A"
  by code_simp

theorem add_part_failure_state_witness:
  "ex_build_A = add_part_calls (Build ''B-0'' None None default_max_material) [(ex_part_A, False)]
   \<and> add_part ex_part_C False ex_build_A
       = (Some (MaterialExceeded ''CFA''), ex_build_A\<lparr>parts_dict := parts_dict ex_build_A @ [(''U'', [])]\<rparr>)
   \<and> is_RuntimeError (MaterialExceeded ''CFA'')
   \<and> parts (ex_build_A\<lparr>parts_dict := parts_dict ex_build_A @ [(''U'', [])]\<rparr>) = parts ex_build_A
   \<and> base_names (ex_build_A\<lparr>parts_dict := parts_dict ex_build_A @ [(''U'', [])]\<rparr>)
       = base_names ex_build_A"
proof -
  have h1: "add_part ex_part_C False ex_build_A
       = (Some (MaterialExceeded ''CFA''), ex_build_A\<lparr>parts_dict := parts_dict ex_build_A @ [(''U'', [])]\<rparr>)"
    by code_simp
  have h2: "is_RuntimeError (MaterialExceeded ''CFA'')"
    by simp
  from add_part_failure_state[OF ex_build_A_def h1 h2] h1 h2 show ?thesis
    using ex_build_A_def by blast
qed

lemma charge_step:
  "(case map_of used key of Some u \<Rightarrow> AList.update key (u + qty) used
                          | None \<Rightarrow> AList.update key qty used)
     = AList.update key (dict_get used key 0 + qty) (used :: materials)"
  by (simp add: dict_get_def split: option.splits)

lemma dict_get_update:
  "dict_get (AList.update k v al) k' d = (if k' = k then v else dict_get al k' d)"
  by (simp add: dict_get_def update_conv')

lemma list_all_update:
  "P (k, v) \<Longrightarrow> list_all P al \<Longrightarrow> list_all P (AList.update k v al)"
  using set_update_subset[of k v al] by (auto simp: list_all_iff)

lemma charge_lookup:
  fixes used ms :: materials
  assumes "distinct (map fst ms)"
  shows "map_of (charge_materials used ms) m =
     (case map_of ms m of
        None \<Rightarrow> map_of used m
      | Some q \<Rightarrow> Some (dict_get used m 0 + q))"
  using assms
proof (induction ms arbitrary: used)
  case Nil
  then show ?case by simp
next
  case (Cons kq ms)
  obtain k q where kq: "kq = (k, q)" by (cases kq)
  let ?used = "AList.update k (dict_get used k 0 + q) used"
  have d: "distinct (map fst ms)" and nk: "map_of ms k = None"
    using Cons.prems kq by (auto simp: map_of_eq_None_iff)
  have IH: "map_of (charge_materials ?used ms) m =
     (case map_of ms m of None \<Rightarrow> map_of ?used m | Some q \<Rightarrow> Some (dict_get ?used m 0 + q))"
    using Cons.IH[OF d] .
  show ?case
  proof (cases "m = k")
    case True
    then show ?thesis
      using IH nk by (simp add: kq charge_step update_conv')
  next
    case False
    then show ?thesis
      using IH by (simp add: kq charge_step update_conv' dict_get_update split: option.splits)
  qed
qed

lemma check_materials_passed:
  assumes "check_materials b False ms = None" and "(m, q) \<in> set ms"
  shows "dict_get (build_print_materials b) m 0 + q \<le> dict_get (max_material b) m 0"
  using assms by (induction ms) (auto split: if_splits)

lemma add_checked_material_within:
  assumes "material_within b m" and "distinct (map fst (print_materials p))"
  shows "material_within (snd (add_checked p False b)) m"
proof -
  have "material_within (store_part p
          (b\<lparr>build_print_time := t,
             build_print_materials := charge_materials (build_print_materials b) (print_materials p)\<rparr>)) m"
    if ok: "check_materials b False (print_materials p) = None" for t
  proof (cases "map_of (print_materials p) m")
    case None
    then show ?thesis
      using assms by (simp add: material_within_def store_part_fields charge_lookup
          split: option.splits)
  next
    case (Some q)
    then have "(m, q) \<in> set (print_materials p)"
      by (rule map_of_SomeD)
    from check_materials_passed[OF ok this] show ?thesis
      using assms(2) Some by (simp add: material_within_def store_part_fields charge_lookup
          split: option.splits)
  qed
  moreover have "material_within (store_part p b) m"
    using assms(1) by (simp add: material_within_def store_part_fields split: option.splits)
  ultimately show ?thesis
    using assms(1) by (simp add: add_checked_def Let_def split: option.splits)
qed

lemma add_part_material_within:
  assumes "\<not> first_part b" and "material_within b m"
    and "distinct (map fst (print_materials p))"
  shows "material_within (snd (add_part p False b)) m"
proof -
  define b3 where "b3 = seed_parts p
     ((if build_machine (if build_batch b = None then b\<lparr>build_batch := Some (batch p)\<rparr> else b) = None
       then (if build_batch b = None then b\<lparr>build_batch := Some (batch p)\<rparr> else b)\<lparr>build_machine := Some (machine p)\<rparr>
       else (if build_batch b = None then b\<lparr>build_batch := Some (batch p)\<rparr> else b)))"
  have w3: "material_within b3 m"
    using assms(2) by (simp add: b3_def material_within_def seed_parts_fields split: option.splits)
  have "material_within (snd (add_checked p False b3)) m"
    using w3 assms(3) by (rule add_checked_material_within)
  then show ?thesis
    using assms(1,2)
    by (auto simp: add_part_def Let_def b3_def material_within_def split: option.splits)
qed

lemma add_part_calls_material_within:
  assumes "\<not> first_part b" and "material_within b m"
    and "\<forall>p\<in>set ps. distinct (map fst (print_materials p))"
  shows "material_within (add_part_calls b (map (\<lambda>p. (p, False)) ps)) m"
  using assms
proof (induction ps arbitrary: b)
  case Nil
  then show ?case by simp
next
  case (Cons p ps)
  have "\<not> first_part (snd (add_part p False b))"
    by (simp add: add_part_fields)
  moreover have "material_within (snd (add_part p False b)) m"
    using Cons.prems by (simp add: add_part_material_within)
  ultimately show ?case
    using Cons.IH Cons.prems(3) by simp
qed

text \<open>
  Claim C1, as amended. The first \<open>add_part\<close> call on a build is always treated as
  forced, so it can take a material over capacity. On a build past its first call, for
  every material \<open>m\<close>: when the accumulated quantity of \<open>m\<close> is within its capacity
  before a sequence of calls with \<open>ignore_checks\<close> false (the parts' materials being
  dicts), it is within its capacity after every prefix of the sequence, whatever the other
  materials are at.
\<close>

theorem capacity_respected_after_first_part:
  assumes "\<not> first_part b" and "material_within b m"
    and "\<forall>p\<in>set ps. distinct (map fst (print_materials p))"
  shows "\<forall>n\<le>length ps. material_within (add_part_calls b (map (\<lambda>p. (p, False)) (take n ps))) m"
proof (intro allI impI)
  fix n
  have "\<forall>p\<in>set (take n ps). distinct (map fst (print_materials p))"
    using assms(3) by (meson in_set_takeD)
  then show "material_within (add_part_calls b (map (\<lambda>p. (p, False)) (take n ps))) m"
    using assms(1,2) add_part_calls_material_within by blast
qed

text \<open>
  Claim C1: as stated it fails for the very first call, which takes a part of 100 CFA on
  a build with capacity 50 although \<open>ignore_checks\<close> is false.
\<close>

theorem first_add_exceeds_capacity:
  "fst (add_part ex_part_big False (Build ''B-0'' None None default_max_material)) = None
   \<and> dict_get (build_print_materials
        (add_part_calls (Build ''B-0'' None None default_max_material) [(ex_part_big, False)]))
        ''CFA'' 0 = 100
   \<and> dict_get (max_material
        (add_part_calls (Build ''B-0'' None None default_max_material) [(ex_part_big, False)]))
        ''CFA'' 0 = 50"
  by code_simp

theorem capacity_respected_after_first_part_witness:
  "\<not> first_part ex_build_big \<and> material_within ex_build_big ''OFA''
   \<and> \<not> material_within ex_build_big ''CFA''
   \<and> distinct (map fst (print_materials ex_part_O700))
   \<and> distinct (map fst (print_materials ex_part_O200))
   \<and> material_within
        (add_part_calls ex_build_big [(ex_part_O700, False), (ex_part_O200, False)]) ''OFA''
   \<and> fst (add_part ex_part_O700 False ex_build_big) = None
   \<and> fst (add_part ex_part_O200 False (snd (add_part ex_part_O700 False ex_build_big)))
       = Some (MaterialExceeded ''OFA'')
   \<and> build_print_materials
        (add_part_calls ex_build_big [(ex_part_O700, False), (ex_part_O200, False)])
       = [(''CFA'', 100), (''OFA'', 700)]"
proof -
  have h1: "\<not> first_part ex_build_big" by code_simp
  have h2: "material_within ex_build_big ''OFA''" by code_simp
  have h3: "distinct (map fst (print_materials ex_part_O700))"
    and h4: "distinct (map fst (print_materials ex_part_O200))" by code_simp+
  have h5: "\<forall>p\<in>set [ex_part_O700, ex_part_O200]. distinct (map fst (print_materials p))"
    using h3 h4 by simp
  have "material_within (add_part_calls ex_build_big
          (map (\<lambda>p. (p, False)) (take 2 [ex_part_O700, ex_part_O200]))) ''OFA''"
    using capacity_respected_after_first_part[OF h1 h2 h5, rule_format, of 2] by simp
  then have c: "material_within
        (add_part_calls ex_build_big [(ex_part_O700, False), (ex_part_O200, False)]) ''OFA''"
    by simp
  have e1: "\<not> material_within ex_build_big ''CFA''" by code_simp
  have e2: "fst (add_part ex_part_O700 False ex_build_big) = None" by code_simp
  have e3: "fst (add_part ex_part_O200 False (snd (add_part ex_part_O700 False ex_build_big)))
       = Some (MaterialExceeded ''OFA'')" by code_simp
  have e4: "build_print_materials
        (add_part_calls ex_build_big [(ex_part_O700, False), (ex_part_O200, False)])
       = [(''CFA'', 100), (''OFA'', 700)]" by code_simp
  show ?thesis
    using h1 h2 h3 h4 c e1 e2 e3 e4 by blast
qed

lemma add_part_calls_batch:
  "build_batch b = Some bt \<Longrightarrow> build_batch (add_part_calls b calls) = Some bt"
  by (induction b calls rule: add_part_calls.induct) (simp_all add: add_part_fields)

lemma add_part_calls_machine:
  "build_machine b = Some mc \<Longrightarrow> build_machine (add_part_calls b calls) = Some mc"
  by (induction b calls rule: add_part_calls.induct) (simp_all add: add_part_fields)

lemma add_part_batch_mismatch:
  assumes "\<not> first_part b" and "build_batch b = Some bt" and "batch p \<noteq> bt"
  shows "add_part p False b =
     (Some BatchMismatch,
      if build_machine b = None then b\<lparr>build_machine := Some (machine p)\<rparr> else b)"
  using assms by (auto simp add: add_part_def Let_def)

lemma add_part_machine_mismatch:
  assumes "\<not> first_part b" and "build_machine b = Some mc" and "machine p \<noteq> mc"
    and "build_batch b = None \<or> build_batch b = Some (batch p)"
  shows "add_part p False b =
     (Some MachineMismatch,
      if build_batch b = None then b\<lparr>build_batch := Some (batch p)\<rparr> else b)"
  using assms by (auto simp add: add_part_def Let_def)

text \<open>
  Claim C4, as amended. A batch (respectively machine) that is set never changes under
  any sequence of \<open>add_part\<close> calls, forced or not. Once the build is past its first
  call, a call with \<open>ignore_checks\<close> false whose part has a different batch fails
  with \<open>BatchMismatch\<close>, and one whose part has a different machine, and a batch that
  does not mismatch, fails with \<open>MachineMismatch\<close>.
\<close>

theorem batch_machine_immutable:
  "(build_batch b = Some bt \<longrightarrow>
      build_batch (add_part_calls b calls) = Some bt
      \<and> (\<not> first_part (add_part_calls b calls) \<and> batch p \<noteq> bt \<longrightarrow>
           fst (add_part p False (add_part_calls b calls)) = Some BatchMismatch))
   \<and> (build_machine b = Some mc \<longrightarrow>
      build_machine (add_part_calls b calls) = Some mc
      \<and> (\<not> first_part (add_part_calls b calls) \<and> machine p' \<noteq> mc
          \<and> (build_batch (add_part_calls b calls) = None
              \<or> build_batch (add_part_calls b calls) = Some (batch p')) \<longrightarrow>
           fst (add_part p' False (add_part_calls b calls)) = Some MachineMismatch))"
proof (intro conjI impI)
  assume "build_batch b = Some bt"
  then show "build_batch (add_part_calls b calls) = Some bt"
    by (rule add_part_calls_batch)
next
  assume "build_batch b = Some bt"
    and "\<not> first_part (add_part_calls b calls) \<and> batch p \<noteq> bt"
  then show "fst (add_part p False (add_part_calls b calls)) = Some BatchMismatch"
    using add_part_batch_mismatch[of "add_part_calls b calls" bt p]
    by (simp add: add_part_calls_batch)
next
  assume "build_machine b = Some mc"
  then show "build_machine (add_part_calls b calls) = Some mc"
    by (rule add_part_calls_machine)
next
  assume "build_machine b = Some mc"
    and "\<not> first_part (add_part_calls b calls) \<and> machine p' \<noteq> mc
       \<and> (build_batch (add_part_calls b calls) = None
           \<or> build_batch (add_part_calls b calls) = Some (batch p'))"
  then show "fst (add_part p' False (add_part_calls b calls)) = Some MachineMismatch"
    using add_part_machine_mismatch[of "add_part_calls b calls" mc p']
    by (simp add: add_part_calls_machine)
qed

text \<open>
  Claim C4: as stated it fails in two ways. A build constructed with batch 2 accepts a
  part of batch 0 as its first part (the first call is forced), and stores it; and on a
  build of batch 0 and machine 0 a part of batch 1 and machine 1 fails with
  \<open>BatchMismatch\<close>, the batch being checked first, not with \<open>MachineMismatch\<close>.
\<close>

theorem mismatch_not_always_signalled:
  "build_batch (Build ''B-0'' (Some 2) None default_max_material) = Some 2
   \<and> batch ex_part_A = 0
   \<and> add_part ex_part_A False (Build ''B-0'' (Some 2) None default_max_material)
       = (None, add_part_calls (Build ''B-0'' (Some 2) None default_max_material) [(ex_part_A, False)])
   \<and> build_batch (add_part_calls (Build ''B-0'' (Some 2) None default_max_material) [(ex_part_A, False)]) = Some 2
   \<and> parts (add_part_calls (Build ''B-0'' (Some 2) None default_max_material) [(ex_part_A, False)]) = [ex_part_A]
   \<and> build_machine ex_build_A = Some 0 \<and> machine ex_part_E = 1
   \<and> fst (add_part ex_part_E False ex_build_A) = Some BatchMismatch"
  by code_simp

theorem batch_machine_immutable_witness:
  "build_batch ex_build_A = Some 0
   \<and> build_batch (add_part_calls ex_build_A [(ex_part_C, True)]) = Some 0
   \<and> \<not> first_part (add_part_calls ex_build_A [(ex_part_C, True)])
   \<and> batch ex_part_E \<noteq> 0
   \<and> fst (add_part ex_part_E False (add_part_calls ex_build_A [(ex_part_C, True)])) = Some BatchMismatch
   \<and> build_machine ex_build_A = Some 0
   \<and> build_machine (add_part_calls ex_build_A [(ex_part_C, True)]) = Some 0
   \<and> machine ex_part_M \<noteq> 0
   \<and> build_batch (add_part_calls ex_build_A [(ex_part_C, True)]) = Some (batch ex_part_M)
   \<and> fst (add_part ex_part_M False (add_part_calls ex_build_A [(ex_part_C, True)])) = Some MachineMismatch"
proof -
  have h1: "build_batch ex_build_A = Some 0" and h2: "build_machine ex_build_A = Some 0"
    by code_simp+
  have h3: "\<not> first_part (add_part_calls ex_build_A [(ex_part_C, True)])"
    by code_simp
  have h4: "batch ex_part_E \<noteq> 0" and h5: "machine ex_part_M \<noteq> 0"
    by code_simp+
  have h6: "build_batch (add_part_calls ex_build_A [(ex_part_C, True)]) = Some (batch ex_part_M)"
    by code_simp
  show ?thesis
    using batch_machine_immutable[of ex_build_A 0 "[(ex_part_C, True)]" ex_part_E 0 ex_part_M]
      h1 h2 h3 h4 h5 h6
    by blast
qed

lemma check_materials_exceeds:
  assumes "(m, q) \<in> set ms"
    and "dict_get (build_print_materials b) m 0 + q > dict_get (max_material b) m 0"
  shows "\<exists>key. check_materials b False ms = Some key"
  using assms by (induction ms) auto

text \<open>
  Claim C9, as amended. On a build past its first part, a call with \<open>ignore_checks\<close>
  false that reaches the material check (batch and machine match, the condition is not
  yet stored under the base name, \<open>print_max_samples\<close> is not zero and divides the
  stored count) fails with \<open>MaterialExceeded\<close> whenever the part requires a positive
  quantity of a material that \<open>max_material\<close> does not list and of which the build's
  accumulated usage is not negative: the capacity of an unlisted material is read as 0.
\<close>

theorem unlisted_material_is_capacity_zero:
  assumes "\<not> first_part b"
    and "build_batch b = Some (batch p)" and "build_machine b = Some (machine p)"
    and "cnd p \<notin> set (map fst (dict_get (parts_dict b) (base_name p) []))"
    and "print_max_samples p \<noteq> 0"
    and "int (length (dict_get (parts_dict b) (base_name p) [])) mod print_max_samples p = 0"
    and "(m, q) \<in> set (print_materials p)" and "0 < q"
    and "map_of (max_material b) m = None"
    and "0 \<le> dict_get (build_print_materials b) m 0"
  shows "\<exists>key. fst (add_part p False b) = Some (MaterialExceeded key)"
proof -
  have "dict_get (max_material b) m 0 = 0"
    using assms(9) by (simp add: dict_get_def)
  then have "dict_get (build_print_materials (seed_parts p b)) m 0 + q
               > dict_get (max_material (seed_parts p b)) m 0"
    using assms(8,10) by (simp add: seed_parts_fields)
  then obtain key where "check_materials (seed_parts p b) False (print_materials p) = Some key"
    using check_materials_exceeds[OF assms(7)] by blast
  then have "add_checked p False (seed_parts p b) = (Some (MaterialExceeded key), seed_parts p b)"
    using assms(4,5,6) by (simp add: add_checked_def Let_def seed_parts_dict_get)
  then show ?thesis
    using add_part_later[OF assms(1,2,3), of p False] by simp
qed

text \<open>
  Claim C9: as stated it fails when an earlier check raises first. The stored count under
  the base name is divisible by \<open>print_max_samples\<close> and the part needs 5 of an
  unlisted material, but its condition is already stored, so the call fails with
  \<open>DuplicatePart\<close>.
\<close>

theorem unlisted_material_other_failure:
  "\<not> first_part ex_build_A
   \<and> int (length (dict_get (parts_dict ex_build_A) (base_name ex_part_F) []))
       mod print_max_samples ex_part_F = 0
   \<and> (''XYZ'', 5) \<in> set (print_materials ex_part_F)
   \<and> map_of (max_material ex_build_A) ''XYZ'' = None
   \<and> fst (add_part ex_part_F False ex_build_A) = Some DuplicatePart"
  by code_simp

theorem unlisted_material_is_capacity_zero_witness:
  "\<not> first_part ex_build_A
   \<and> build_batch ex_build_A = Some (batch ex_part_X)
   \<and> build_machine ex_build_A = Some (machine ex_part_X)
   \<and> cnd ex_part_X \<notin> set (map fst (dict_get (parts_dict ex_build_A) (base_name ex_part_X) []))
   \<and> print_max_samples ex_part_X \<noteq> 0
   \<and> int (length (dict_get (parts_dict ex_build_A) (base_name ex_part_X) []))
       mod print_max_samples ex_part_X = 0
   \<and> (''XYZ'', 5) \<in> set (print_materials ex_part_X) \<and> (0::int) < 5
   \<and> map_of (max_material ex_build_A) ''XYZ'' = None
   \<and> 0 \<le> dict_get (build_print_materials ex_build_A) ''XYZ'' 0
   \<and> (\<exists>key. fst (add_part ex_part_X False ex_build_A) = Some (MaterialExceeded key))"
proof -
  have h1: "\<not> first_part ex_build_A" by code_simp
  have h2: "build_batch ex_build_A = Some (batch ex_part_X)" by code_simp
  have h3: "build_machine ex_build_A = Some (machine ex_part_X)" by code_simp
  have h4: "cnd ex_part_X \<notin> set (map fst (dict_get (parts_dict ex_build_A) (base_name ex_part_X) []))"
    by code_simp
  have h5: "print_max_samples ex_part_X \<noteq> 0" by code_simp
  have h6: "int (length (dict_get (parts_dict ex_build_A) (base_name ex_part_X) []))
       mod print_max_samples ex_part_X = 0" by code_simp
  have h7: "(''XYZ'', 5) \<in> set (print_materials ex_part_X)" by code_simp
  have h8: "(0::int) < 5" by simp
  have h9: "map_of (max_material ex_build_A) ''XYZ'' = None" by code_simp
  have h10: "0 \<le> dict_get (build_print_materials ex_build_A) ''XYZ'' 0" by code_simp
  from unlisted_material_is_capacity_zero[OF h1 h2 h3 h4 h5 h6 h7 h8 h9 h10]
  show ?thesis using h1 h2 h3 h4 h5 h6 h7 h8 h9 h10 by blast
qed

lemma keyed_fields: "parts_dict b' = parts_dict b \<Longrightarrow> keyed b' = keyed b"
  by (simp add: keyed_def)

lemma keyed_Build: "keyed (Build n bt mc mm)"
  by (simp add: keyed_def Build_def)

lemma keyed_seed: "keyed b \<Longrightarrow> keyed (seed_parts p b)"
  by (auto simp: keyed_def seed_parts_dict map_of_eq_None_iff)

lemma keyed_group:
  assumes "keyed b"
  shows "distinct (map fst (dict_get (parts_dict b) bn []))
       \<and> list_all (\<lambda>(c, p). base_name p = bn \<and> cnd p = c) (dict_get (parts_dict b) bn [])"
proof (cases "map_of (parts_dict b) bn")
  case None
  then show ?thesis by (simp add: dict_get_def)
next
  case (Some g)
  then have "(bn, g) \<in> set (parts_dict b)" by (rule map_of_SomeD)
  then show ?thesis
    using assms Some by (auto simp: keyed_def dict_get_def list_all_iff)
qed

lemma keyed_store: 
  assumes "keyed b"
  shows "keyed (store_part p b)"
proof -
  let ?g = "AList.update (cnd p) p (dict_get (parts_dict b) (base_name p) [])"
  have "distinct (map fst ?g)"
    using keyed_group[OF assms] by (simp add: distinct_update)
  moreover have "list_all (\<lambda>(c, q). base_name q = base_name p \<and> cnd q = c) ?g"
    using keyed_group[OF assms, of "base_name p"] by (intro list_all_update) simp_all
  ultimately have "list_all (\<lambda>(bn, grp). distinct (map fst grp)
                     \<and> list_all (\<lambda>(c, p). base_name p = bn \<and> cnd p = c) grp)
          (AList.update (base_name p) ?g (parts_dict b))"
    using assms by (intro list_all_update) (simp_all add: keyed_def)
  then show ?thesis
    using assms by (simp add: keyed_def store_part_def distinct_update)
qed

lemma keyed_add_checked: "keyed b \<Longrightarrow> keyed (snd (add_checked p ign b))"
  by (auto simp: add_checked_def Let_def keyed_store keyed_fields[of "b\<lparr>build_print_time := t, build_print_materials := m\<rparr>" b for t m]
      intro!: keyed_store split: option.splits)

lemma build_update_same:
  "build_batch b = x \<Longrightarrow> b\<lparr>build_batch := x\<rparr> = b"
  "build_machine b = y \<Longrightarrow> b\<lparr>build_machine := y\<rparr> = b"
  "first_part b = z \<Longrightarrow> b\<lparr>first_part := z\<rparr> = b"
  by (cases b; simp)+

lemma add_part_alt:
  "add_part p ign b =
     (let b3 = b\<lparr>build_batch := Some (case build_batch b of None \<Rightarrow> batch p | Some x \<Rightarrow> x),
                 build_machine := Some (case build_machine b of None \<Rightarrow> machine p | Some x \<Rightarrow> x),
                 first_part := False\<rparr>;
          ign' = (ign \<or> first_part b)
      in if build_batch b3 \<noteq> Some (batch p) \<and> \<not> ign' then (Some BatchMismatch, b3)
         else if build_machine b3 \<noteq> Some (machine p) \<and> \<not> ign' then (Some MachineMismatch, b3)
         else add_checked p ign' (seed_parts p b3))"
  by (cases "build_batch b"; cases "build_machine b"; cases "first_part b")
     (simp_all add: add_part_def Let_def build_update_same)

lemma keyed_add_part:
  assumes "keyed b"
  shows "keyed (snd (add_part p ign b))"
proof -
  define b3 where "b3 = b\<lparr>build_batch := Some (case build_batch b of None \<Rightarrow> batch p | Some x \<Rightarrow> x),
                 build_machine := Some (case build_machine b of None \<Rightarrow> machine p | Some x \<Rightarrow> x),
                 first_part := False\<rparr>"
  have "keyed b3"
    using assms by (simp add: keyed_def b3_def)
  then have "keyed (snd (add_checked p ign' (seed_parts p b3)))" for ign'
    by (intro keyed_add_checked keyed_seed)
  then show ?thesis
    using \<open>keyed b3\<close> by (simp add: add_part_alt Let_def b3_def[symmetric])
qed

lemma keyed_add_part_calls: "keyed b \<Longrightarrow> keyed (add_part_calls b calls)"
  by (induction b calls rule: add_part_calls.induct) (simp_all add: keyed_add_part)






lemma add_checked_success:
  assumes "add_checked p ign b = (None, b')"
  shows "print_max_samples p \<noteq> 0"
    and "parts_dict b' =
           AList.update (base_name p)
             (AList.update (cnd p) p (dict_get (parts_dict b) (base_name p) [])) (parts_dict b)"
    and "build_print_time b' =
           (if int (length (dict_get (parts_dict b) (base_name p) [])) mod print_max_samples p = 0
            then build_print_time b + print_time p else build_print_time b)"
    and "build_print_materials b' =
           (if int (length (dict_get (parts_dict b) (base_name p) [])) mod print_max_samples p = 0
            then charge_materials (build_print_materials b) (print_materials p)
            else build_print_materials b)"
  using assms
  by (auto simp: add_checked_def Let_def store_part_def split: if_splits option.splits)

lemma add_part_success:
  assumes "add_part p f b = (None, b')"
  shows "print_max_samples p \<noteq> 0"
    and "parts_dict b' =
           AList.update (base_name p)
             (AList.update (cnd p) p (dict_get (parts_dict b) (base_name p) []))
             (parts_dict (seed_parts p b))"
    and "build_print_time b' =
           (if int (length (dict_get (parts_dict b) (base_name p) [])) mod print_max_samples p = 0
            then build_print_time b + print_time p else build_print_time b)"
    and "build_print_materials b' =
           (if int (length (dict_get (parts_dict b) (base_name p) [])) mod print_max_samples p = 0
            then charge_materials (build_print_materials b) (print_materials p)
            else build_print_materials b)"
proof -
  define b3 where "b3 = b\<lparr>build_batch := Some (case build_batch b of None \<Rightarrow> batch p | Some x \<Rightarrow> x),
                 build_machine := Some (case build_machine b of None \<Rightarrow> machine p | Some x \<Rightarrow> x),
                 first_part := False\<rparr>"
  have same: "parts_dict b3 = parts_dict b" "build_print_time b3 = build_print_time b"
    "build_print_materials b3 = build_print_materials b"
    by (simp_all add: b3_def)
  have ac: "add_checked p (f \<or> first_part b) (seed_parts p b3) = (None, b')"
    using assms by (simp add: add_part_alt Let_def b3_def[symmetric] split: if_splits)
  have g: "dict_get (parts_dict (seed_parts p b3)) (base_name p) []
             = dict_get (parts_dict b) (base_name p) []"
    by (simp add: seed_parts_dict_get same)
  have sd: "parts_dict (seed_parts p b3) = parts_dict (seed_parts p b)"
    by (simp add: seed_parts_dict same)
  show "print_max_samples p \<noteq> 0"
    using add_checked_success(1)[OF ac] .
  show "parts_dict b' =
           AList.update (base_name p)
             (AList.update (cnd p) p (dict_get (parts_dict b) (base_name p) []))
             (parts_dict (seed_parts p b))"
    using add_checked_success(2)[OF ac] unfolding sd seed_parts_dict_get .
  show "build_print_time b' =
           (if int (length (dict_get (parts_dict b) (base_name p) [])) mod print_max_samples p = 0
            then build_print_time b + print_time p else build_print_time b)"
    using add_checked_success(3)[OF ac] by (simp add: g seed_parts_fields same)
  show "build_print_materials b' =
           (if int (length (dict_get (parts_dict b) (base_name p) [])) mod print_max_samples p = 0
            then charge_materials (build_print_materials b) (print_materials p)
            else build_print_materials b)"
    using add_checked_success(4)[OF ac] by (simp add: g seed_parts_fields same)
qed

lemma add_part_success_group:
  assumes "add_part p f b = (None, b')"
  shows "dict_get (parts_dict b') (base_name p) []
           = AList.update (cnd p) p (dict_get (parts_dict b) (base_name p) [])"
  using add_part_success(2)[OF assms] by (simp add: dict_get_def update_conv')








text \<open>
  On a build as the constructor and \<open>add_part\<close> calls leave it, \<open>base_names\<close> lists
  exactly the base names of the parts it holds.
\<close>

lemma base_names_parts:
  assumes "keyed b"
  shows "bn \<in> set (base_names b) \<longleftrightarrow> (\<exists>p\<in>set (parts b). base_name p = bn)"
proof
  assume "bn \<in> set (base_names b)"
  then obtain g where g: "(bn, g) \<in> set (parts_dict b)" "g \<noteq> []"
    by (auto simp: base_names_def)
  then obtain c p where cp: "(c, p) \<in> set g"
    by (cases g) auto
  then have "base_name p = bn"
    using assms g(1) by (auto simp: keyed_def list_all_iff)
  moreover have "p \<in> set (parts b)"
    using g(1) cp by (force simp: parts_def)
  ultimately show "\<exists>p\<in>set (parts b). base_name p = bn"
    by blast
next
  assume "\<exists>p\<in>set (parts b). base_name p = bn"
  then obtain p bn' g c where p: "(bn', g) \<in> set (parts_dict b)" "(c, p) \<in> set g"
      "base_name p = bn"
    by (auto simp: parts_def)
  then have "bn' = bn"
    using assms by (auto simp: keyed_def list_all_iff)
  then show "bn \<in> set (base_names b)"
    using p by (force simp: base_names_def)
qed

lemma base_names_reachable:
  "bn \<in> set (base_names (add_part_calls (Build n bt mc mm) calls))
     \<longleftrightarrow> (\<exists>p\<in>set (parts (add_part_calls (Build n bt mc mm) calls)). base_name p = bn)"
  by (rule base_names_parts) (simp add: keyed_add_part_calls keyed_Build)

section \<open>filter_builds with a base name\<close>

text \<open>
  For a call that gives \<open>batch\<close> and \<open>base_name\<close>, on a collection whose builds are as
  the constructor and \<open>add_part\<close> calls leave them: the result lists, among the builds
  that pass the batch and machine steps, exactly those that hold at least one part of that
  base name, whatever the \<open>materials\<close> argument and the remaining capacity are.
\<close>

theorem filter_builds_base_name_given_batch:
  assumes "builds c = map (\<lambda>(n, b, m, mm, calls). add_part_calls (Build n b m mm) calls) made"
  shows "filter_builds c (Some bt) machine_arg materials_arg (Some bn) =
     Inr (filter (\<lambda>i. list_ex (\<lambda>p. base_name p = bn) (parts (builds c ! i)))
           (filter (\<lambda>i. case machine_arg of
                           None \<Rightarrow> True
                         | Some mc \<Rightarrow> build_machine (builds c ! i) = Some mc
                                      \<or> build_machine (builds c ! i) = None)
             (filter (\<lambda>i. build_batch (builds c ! i) = Some bt \<or> build_batch (builds c ! i) = None)
                [0..<length (builds c)])))"
proof -
  have "bn \<in> set (base_names (builds c ! i)) \<longleftrightarrow> list_ex (\<lambda>p. base_name p = bn) (parts (builds c ! i))"
    if "i < length (builds c)" for i
  proof -
    obtain n b m mm calls where "made ! i = (n, b, m, mm, calls)"
      by (metis prod_cases5)
    then have "builds c ! i = add_part_calls (Build n b m mm) calls"
      using that assms by simp
    then show ?thesis
      by (simp add: base_names_reachable list_ex_iff)
  qed
  then have eq: "filter (\<lambda>i. bn \<in> set (base_names (builds c ! i))) xs
           = filter (\<lambda>i. list_ex (\<lambda>p. base_name p = bn) (parts (builds c ! i))) xs"
    if "set xs \<subseteq> {0..<length (builds c)}" for xs
    using that by (intro filter_cong) auto
  let ?inner = "filter (\<lambda>i. case machine_arg of
                           None \<Rightarrow> True
                         | Some mc \<Rightarrow> build_machine (builds c ! i) = Some mc
                                      \<or> build_machine (builds c ! i) = None)
             (filter (\<lambda>i. build_batch (builds c ! i) = Some bt \<or> build_batch (builds c ! i) = None)
                [0..<length (builds c)])"
  have res: "filter_builds c (Some bt) machine_arg materials_arg (Some bn) =
     Inr (filter (\<lambda>i. bn \<in> set (base_names (builds c ! i))) ?inner)"
    by (cases machine_arg)
       (simp_all add: filter_builds_def fb_batch_def fb_machine_def fb_base_name_def
          del: filter_filter)
  have "set ?inner \<subseteq> {0..<length (builds c)}"
    by auto
  from eq[OF this] show ?thesis
    by (simp only: res)
qed

theorem filter_builds_base_name_given_batch_witness:
  "builds ex_collection_A
     = map (\<lambda>(n, b, m, mm, calls). add_part_calls (Build n b m mm) calls)
         [(''B-0'', None, None, default_max_material, [(ex_part_A, False)])]
   \<and> filter_builds ex_collection_A (Some 0) (Some 0) [(''CFA'', 100)] (Some ''T'') = Inr [0]
   \<and> filter (\<lambda>i. list_ex (\<lambda>p. base_name p = ''T'') (parts (builds ex_collection_A ! i)))
        [0..<length (builds ex_collection_A)] = [0]
   \<and> filter_builds ex_collection_A (Some 0) (Some 0) [(''CFA'', 100)] None = Inr []"
proof -
  have h: "builds ex_collection_A
     = map (\<lambda>(n, b, m, mm, calls). add_part_calls (Build n b m mm) calls)
         [(''B-0'', None, None, default_max_material, [(ex_part_A, False)])]"
    by code_simp
  have e: "filter (\<lambda>i. list_ex (\<lambda>p. base_name p = ''T'') (parts (builds ex_collection_A ! i)))
        [0..<length (builds ex_collection_A)] = [0]"
    by code_simp
  have m: "filter_builds ex_collection_A (Some 0) (Some 0) [(''CFA'', 100)] None = Inr []"
    by code_simp
  have b: "filter (\<lambda>i. build_batch (builds ex_collection_A ! i) = Some 0
                        \<or> build_batch (builds ex_collection_A ! i) = None)
             [0..<length (builds ex_collection_A)] = [0]"
    by code_simp
  have k: "filter (\<lambda>i. build_machine (builds ex_collection_A ! i) = Some 0
                        \<or> build_machine (builds ex_collection_A ! i) = None) [0] = [0]"
    by code_simp
  have t: "filter (\<lambda>i. list_ex (\<lambda>p. base_name p = ''T'') (parts (builds ex_collection_A ! i))) [0]
             = [0]"
    by code_simp
  from filter_builds_base_name_given_batch[OF h, of 0 "Some 0" "[(''CFA'', 100)]" "''T''"]
  have "filter_builds ex_collection_A (Some 0) (Some 0) [(''CFA'', 100)] (Some ''T'') = Inr [0]"
    by (simp only: b option.case k t)
  then show ?thesis
    using h e m by blast
qed

text \<open>
  Claim C7. With \<open>base_name\<close> given, \<open>filter_builds\<close> is to skip the material step and
  keep the builds that hold a part of that base name, for every call. A call that gives
  \<open>base_name\<close> and leaves \<open>batch\<close> out reads the unbound local \<open>builds\<close> (the defect of
  claim C8) and raises \<open>UnboundLocalError\<close>: on the collection that holds part A, of
  base name T, in its build 0, the call with batch 0 returns build 0 and the call without
  \<open>batch\<close> raises.
\<close>

theorem filter_builds_base_name_batch_omitted:
  "list_ex (\<lambda>p. base_name p = ''T'') (parts (builds ex_collection_A ! 0))
   \<and> filter_builds ex_collection_A (Some 0) None [] (Some ''T'') = Inr [0]
   \<and> filter_builds ex_collection_A None None [] (Some ''T'') = Inl UnboundLocalError"
  by code_simp

section \<open>Grouping accounting\<close>

lemma add_part_calls_append:
  "add_part_calls b (xs @ ys) = add_part_calls (add_part_calls b xs) ys"
  by (induction b xs rule: add_part_calls.induct) simp_all

lemma add_parts_ok_append:
  "add_parts_ok b (xs @ ys) \<longleftrightarrow> add_parts_ok b xs \<and> add_parts_ok (add_part_calls b xs) ys"
  by (induction b xs rule: add_parts_ok.induct) auto

lemma add_part_other_count:
  assumes "int (length (dict_get (parts_dict b) (base_name p) [])) mod print_max_samples p \<noteq> 0"
  shows "build_print_time (snd (add_part p f b)) = build_print_time b
       \<and> build_print_materials (snd (add_part p f b)) = build_print_materials b
       \<and> (\<forall>key. fst (add_part p f b) \<noteq> Some (MaterialExceeded key))"
  using assms
  by (simp add: add_part_alt Let_def add_checked_def seed_parts_dict_get seed_parts_fields
      store_part_fields)

lemma update_absent_keys:
  "k \<notin> fst ` set al \<Longrightarrow> length (AList.update k v al) = Suc (length al)"
  by (induction al) auto

lemma run_no_charge:
  assumes "0 < k"
    and "\<forall>(p, f)\<in>set calls. base_name p = bn \<and> print_max_samples p = int k"
    and "distinct (map (\<lambda>c. cnd (fst c)) calls)"
    and "\<forall>(p, f)\<in>set calls. cnd p \<notin> fst ` set (dict_get (parts_dict b) bn [])"
    and "add_parts_ok b calls"
    and "\<forall>i<length calls. (length (dict_get (parts_dict b) bn []) + i) mod k \<noteq> 0"
  shows "build_print_time (add_part_calls b calls) = build_print_time b
       \<and> build_print_materials (add_part_calls b calls) = build_print_materials b
       \<and> length (dict_get (parts_dict (add_part_calls b calls)) bn [])
           = length (dict_get (parts_dict b) bn []) + length calls
       \<and> fst ` set (dict_get (parts_dict (add_part_calls b calls)) bn [])
           = fst ` set (dict_get (parts_dict b) bn []) \<union> set (map (\<lambda>c. cnd (fst c)) calls)"
  using assms(2-)
proof (induction calls arbitrary: b)
  case Nil
  then show ?case by simp
next
  case (Cons c calls)
  obtain p f where c: "c = (p, f)" by (cases c)
  let ?g = "dict_get (parts_dict b) bn []"
  define b1 where "b1 = snd (add_part p f b)"
  have pb: "base_name p = bn" and pk: "print_max_samples p = int k"
    using Cons.prems(1) c by auto
  have ok: "add_part p f b = (None, b1)" and ok1: "add_parts_ok b1 calls"
    using Cons.prems(4) c by (simp_all add: b1_def prod_eq_iff)
  have fresh: "cnd p \<notin> fst ` set ?g"
    using Cons.prems(3) c by auto
  have g1: "dict_get (parts_dict b1) bn [] = AList.update (cnd p) p ?g"
    using add_part_success_group[OF ok] pb by simp
  have len1: "length (dict_get (parts_dict b1) bn []) = Suc (length ?g)"
    by (simp add: g1 update_absent_keys fresh)
  have keys1: "fst ` set (dict_get (parts_dict b1) bn []) = insert (cnd p) (fst ` set ?g)"
    by (simp add: g1 dom_update)
  have "length ?g mod k \<noteq> 0"
    using Cons.prems(5) by force
  then have "int (length (dict_get (parts_dict b) (base_name p) [])) mod print_max_samples p \<noteq> 0"
    by (simp add: pb pk flip: of_nat_mod)
  then have same1: "build_print_time b1 = build_print_time b"
      "build_print_materials b1 = build_print_materials b"
    using add_part_other_count[of b p f] by (simp_all add: b1_def)
  have "\<forall>(p, f)\<in>set calls. base_name p = bn \<and> print_max_samples p = int k"
    using Cons.prems(1) by simp
  moreover have "distinct (map (\<lambda>c. cnd (fst c)) calls)"
    using Cons.prems(2) by simp
  moreover have "\<forall>(q, f)\<in>set calls. cnd q \<notin> fst ` set (dict_get (parts_dict b1) bn [])"
  proof (clarify)
    fix q f' x y
    assume qin: "(q, f') \<in> set calls" and xin: "(x, y) \<in> set (dict_get (parts_dict b1) bn [])"
      and eq: "cnd q = fst (x, y)"
    have "cnd q \<in> (\<lambda>c. cnd (fst c)) ` set calls"
      using qin by force
    moreover have "cnd p \<notin> (\<lambda>c. cnd (fst c)) ` set calls"
      using Cons.prems(2) c by simp
    ultimately have "cnd q \<noteq> cnd p"
      by metis
    moreover have "cnd q \<notin> fst ` set ?g"
      using Cons.prems(3) qin by auto
    moreover have "cnd q \<in> fst ` set (dict_get (parts_dict b1) bn [])"
      using xin eq by force
    ultimately show False
      by (simp add: keys1)
  qed
  moreover have "\<forall>i<length calls. (length (dict_get (parts_dict b1) bn []) + i) mod k \<noteq> 0"
  proof (intro allI impI)
    fix i assume "i < length calls"
    then have "(length ?g + Suc i) mod k \<noteq> 0"
      using Cons.prems(5)[rule_format, of "Suc i"] by simp
    then show "(length (dict_get (parts_dict b1) bn []) + i) mod k \<noteq> 0"
      by (simp add: len1)
  qed
  ultimately have IH: "build_print_time (add_part_calls b1 calls) = build_print_time b1
       \<and> build_print_materials (add_part_calls b1 calls) = build_print_materials b1
       \<and> length (dict_get (parts_dict (add_part_calls b1 calls)) bn [])
           = length (dict_get (parts_dict b1) bn []) + length calls
       \<and> fst ` set (dict_get (parts_dict (add_part_calls b1 calls)) bn [])
           = fst ` set (dict_get (parts_dict b1) bn []) \<union> set (map (\<lambda>c. cnd (fst c)) calls)"
    using Cons.IH[of b1] ok1 by blast
  then show ?case
    by (simp add: c b1_def[symmetric] same1 len1 keys1)
qed


lemma run_group:
  assumes "0 < k"
    and "\<forall>(p, f)\<in>set ((p0, f0) # rest). base_name p = bn \<and> print_max_samples p = int k"
    and "distinct (map (\<lambda>c. cnd (fst c)) ((p0, f0) # rest))"
    and "\<forall>(p, f)\<in>set ((p0, f0) # rest). cnd p \<notin> fst ` set (dict_get (parts_dict b) bn [])"
    and "add_parts_ok b ((p0, f0) # rest)"
    and "length (dict_get (parts_dict b) bn []) mod k = 0"
    and "Suc (length rest) = k"
  shows "build_print_time (add_part_calls b ((p0, f0) # rest)) = build_print_time b + print_time p0
       \<and> build_print_materials (add_part_calls b ((p0, f0) # rest))
           = charge_materials (build_print_materials b) (print_materials p0)
       \<and> length (dict_get (parts_dict (add_part_calls b ((p0, f0) # rest))) bn [])
           = length (dict_get (parts_dict b) bn []) + k
       \<and> fst ` set (dict_get (parts_dict (add_part_calls b ((p0, f0) # rest))) bn [])
           = fst ` set (dict_get (parts_dict b) bn [])
             \<union> set (map (\<lambda>c. cnd (fst c)) ((p0, f0) # rest))"
proof -
  let ?g = "dict_get (parts_dict b) bn []"
  define b1 where "b1 = snd (add_part p0 f0 b)"
  have pb: "base_name p0 = bn" and pk: "print_max_samples p0 = int k"
    using assms(2) by auto
  have ok: "add_part p0 f0 b = (None, b1)" and ok1: "add_parts_ok b1 rest"
    using assms(5) by (simp_all add: b1_def prod_eq_iff)
  have fresh: "cnd p0 \<notin> fst ` set ?g"
    using assms(4) by auto
  have g1: "dict_get (parts_dict b1) bn [] = AList.update (cnd p0) p0 ?g"
    using add_part_success_group[OF ok] pb by simp
  have len1: "length (dict_get (parts_dict b1) bn []) = Suc (length ?g)"
    by (simp add: g1 update_absent_keys fresh)
  have keys1: "fst ` set (dict_get (parts_dict b1) bn []) = insert (cnd p0) (fst ` set ?g)"
    by (simp add: g1 dom_update)
  have "int (length (dict_get (parts_dict b) (base_name p0) [])) mod print_max_samples p0 = 0"
    using assms(6) by (simp add: pb pk flip: of_nat_mod)
  then have charged: "build_print_time b1 = build_print_time b + print_time p0"
      "build_print_materials b1 = charge_materials (build_print_materials b) (print_materials p0)"
    using add_part_success(3,4)[OF ok] by simp_all
  have 1: "\<forall>(p, f)\<in>set rest. base_name p = bn \<and> print_max_samples p = int k"
    using assms(2) by simp
  have 2: "distinct (map (\<lambda>c. cnd (fst c)) rest)"
    using assms(3) by simp
  have 3: "\<forall>(q, f)\<in>set rest. cnd q \<notin> fst ` set (dict_get (parts_dict b1) bn [])"
  proof (clarify)
    fix q f' x y
    assume qin: "(q, f') \<in> set rest" and xin: "(x, y) \<in> set (dict_get (parts_dict b1) bn [])"
      and eq: "cnd q = fst (x, y)"
    have "cnd q \<in> (\<lambda>c. cnd (fst c)) ` set rest"
      using qin by force
    moreover have "cnd p0 \<notin> (\<lambda>c. cnd (fst c)) ` set rest"
      using assms(3) by simp
    ultimately have "cnd q \<noteq> cnd p0"
      by metis
    moreover have "cnd q \<notin> fst ` set ?g"
      using assms(4) qin by auto
    moreover have "cnd q \<in> fst ` set (dict_get (parts_dict b1) bn [])"
      using xin eq by force
    ultimately show False
      by (simp add: keys1)
  qed
  have 4: "\<forall>i<length rest. (length (dict_get (parts_dict b1) bn []) + i) mod k \<noteq> 0"
  proof (intro allI impI)
    fix i assume i: "i < length rest"
    have "(length ?g + Suc i) mod k = (length ?g mod k + Suc i) mod k"
      by (simp only: mod_add_left_eq)
    also have "\<dots> = Suc i"
      using assms(6,7) i by simp
    finally show "(length (dict_get (parts_dict b1) bn []) + i) mod k \<noteq> 0"
      by (simp add: len1)
  qed
  from run_no_charge[OF assms(1) 1 2 3 ok1 4]
  show ?thesis
    using assms(7) by (simp add: b1_def[symmetric] charged len1 keys1)
qed

text \<open>
  Claim C5. On a build that stores nothing yet under a base name, \<open>2k\<close> successful
  \<open>add_part\<close> calls (forced or not) with parts of that base name, distinct conditions
  and \<open>print_max_samples = k\<close> add time and materials exactly twice: those of the first
  part (stored count 0) and those of the part at position \<open>k\<close> (stored count \<open>k\<close>).
  And whenever the stored count is not divisible by \<open>print_max_samples\<close>, a call
  leaves the accumulated time and materials alone and never fails on material.
\<close>

theorem group_charged_once_per_k:
  assumes "0 < k" and "length calls = 2 * k"
    and "\<forall>(p, f)\<in>set calls. base_name p = bn \<and> print_max_samples p = int k"
    and "distinct (map (\<lambda>c. cnd (fst c)) calls)"
    and "dict_get (parts_dict b) bn [] = []"
    and "add_parts_ok b calls"
  shows "build_print_time (add_part_calls b calls)
           = build_print_time b + print_time (fst (calls ! 0)) + print_time (fst (calls ! k))
       \<and> build_print_materials (add_part_calls b calls)
           = charge_materials
               (charge_materials (build_print_materials b) (print_materials (fst (calls ! 0))))
               (print_materials (fst (calls ! k)))
       \<and> (int (length (dict_get (parts_dict b') (base_name p') [])) mod print_max_samples p' \<noteq> 0
          \<longrightarrow> build_print_time (snd (add_part p' f' b')) = build_print_time b'
              \<and> build_print_materials (snd (add_part p' f' b')) = build_print_materials b'
              \<and> (\<forall>key. fst (add_part p' f' b') \<noteq> Some (MaterialExceeded key)))"
proof -
  define c1 where "c1 = take k calls"
  define c2 where "c2 = drop k calls"
  have calls: "calls = c1 @ c2"
    by (simp add: c1_def c2_def)
  have l1: "length c1 = k" and l2: "length c2 = k"
    using assms(2) by (simp_all add: c1_def c2_def)
  obtain p1 f1 r1 where c1: "c1 = (p1, f1) # r1"
    using l1 assms(1) by (cases c1) auto
  obtain p2 f2 r2 where c2: "c2 = (p2, f2) # r2"
    using l2 assms(1) by (cases c2) auto
  have n0: "fst (calls ! 0) = p1"
    by (simp add: calls c1)
  have nk: "fst (calls ! k) = p2"
    using l1 by (simp add: calls nth_append c2)
  define b1 where "b1 = add_part_calls b c1"
  have ok1: "add_parts_ok b c1" and ok2: "add_parts_ok b1 c2"
    using assms(6) by (simp_all add: calls add_parts_ok_append b1_def)
  have a1: "\<forall>(p, f)\<in>set ((p1, f1) # r1). base_name p = bn \<and> print_max_samples p = int k"
    and a2: "\<forall>(p, f)\<in>set ((p2, f2) # r2). base_name p = bn \<and> print_max_samples p = int k"
    using assms(3) by (simp_all add: calls flip: c1 c2)
  have d1: "distinct (map (\<lambda>c. cnd (fst c)) ((p1, f1) # r1))"
    and d2: "distinct (map (\<lambda>c. cnd (fst c)) ((p2, f2) # r2))"
    and d12: "set (map (\<lambda>c. cnd (fst c)) c1) \<inter> set (map (\<lambda>c. cnd (fst c)) c2) = {}"
    using assms(4) by (simp_all add: calls flip: c1 c2)
  have e1: "\<forall>(p, f)\<in>set ((p1, f1) # r1). cnd p \<notin> fst ` set (dict_get (parts_dict b) bn [])"
    by (simp add: assms(5))
  have first: "build_print_time b1 = build_print_time b + print_time p1
       \<and> build_print_materials b1 = charge_materials (build_print_materials b) (print_materials p1)
       \<and> length (dict_get (parts_dict b1) bn []) = length (dict_get (parts_dict b) bn []) + k
       \<and> fst ` set (dict_get (parts_dict b1) bn [])
           = fst ` set (dict_get (parts_dict b) bn []) \<union> set (map (\<lambda>c. cnd (fst c)) c1)"
    using run_group[OF assms(1) a1 d1 e1 ok1[unfolded c1]] l1
    by (simp add: assms(5) b1_def c1)
  have e2: "\<forall>(p, f)\<in>set ((p2, f2) # r2). cnd p \<notin> fst ` set (dict_get (parts_dict b1) bn [])"
  proof (clarify)
    fix q f' x y
    assume qin: "(q, f') \<in> set ((p2, f2) # r2)"
      and xin: "(x, y) \<in> set (dict_get (parts_dict b1) bn [])" and eq: "cnd q = fst (x, y)"
    have "cnd q \<in> set (map (\<lambda>c. cnd (fst c)) c2)"
      using qin unfolding c2 by force
    moreover have "cnd q \<in> set (map (\<lambda>c. cnd (fst c)) c1)"
      using xin eq first by (force simp: assms(5))
    ultimately show False
      using d12 by blast
  qed
  have lk: "length (dict_get (parts_dict b1) bn []) mod k = 0"
    using first by (simp add: assms(5))
  have second: "build_print_time (add_part_calls b1 c2) = build_print_time b1 + print_time p2
       \<and> build_print_materials (add_part_calls b1 c2)
           = charge_materials (build_print_materials b1) (print_materials p2)"
    using run_group[OF assms(1) a2 d2 e2 ok2[unfolded c2] lk] l2
    by (simp add: c2)
  show ?thesis
    unfolding n0 nk
    using first second add_part_other_count[of b' p' f']
    by (simp add: calls add_part_calls_append b1_def[symmetric])
qed

theorem group_charged_once_per_k_witness:
  "(0::nat) < 2 \<and> length ex_group = 2 * 2
   \<and> list_all (\<lambda>(p, f). base_name p = ''T'' \<and> print_max_samples p = int 2) ex_group
   \<and> distinct (map (\<lambda>c. cnd (fst c)) ex_group)
   \<and> dict_get (parts_dict (Build ''B-0'' None None default_max_material)) ''T'' [] = []
   \<and> add_parts_ok (Build ''B-0'' None None default_max_material) ex_group
   \<and> build_print_time (add_part_calls (Build ''B-0'' None None default_max_material) ex_group)
       = 0 + print_time (fst (ex_group ! 0)) + print_time (fst (ex_group ! 2))
   \<and> build_print_materials (add_part_calls (Build ''B-0'' None None default_max_material) ex_group)
       = [(''CFA'', 11)]
   \<and> int (length (dict_get (parts_dict ex_build_A) (base_name (ex_part_D\<lparr>print_max_samples := 2\<rparr>)) []))
        mod print_max_samples (ex_part_D\<lparr>print_max_samples := 2\<rparr>) \<noteq> 0
   \<and> build_print_materials (snd (add_part (ex_part_D\<lparr>print_max_samples := 2\<rparr>) False ex_build_A))
       = build_print_materials ex_build_A"
proof -
  let ?b = "Build ''B-0'' None None default_max_material"
  let ?p = "ex_part_D\<lparr>print_max_samples := 2\<rparr>"
  have h1: "(0::nat) < 2" by simp
  have h2: "length ex_group = 2 * 2" by code_simp
  have h3': "list_all (\<lambda>(p, f). base_name p = ''T'' \<and> print_max_samples p = int 2) ex_group"
    by code_simp
  then have h3: "\<forall>(p, f)\<in>set ex_group. base_name p = ''T'' \<and> print_max_samples p = int 2"
    by (simp add: list_all_iff)
  have h4: "distinct (map (\<lambda>c. cnd (fst c)) ex_group)" by code_simp
  have h5: "dict_get (parts_dict ?b) ''T'' [] = []" by code_simp
  have h6: "add_parts_ok ?b ex_group" by code_simp
  have h7: "int (length (dict_get (parts_dict ex_build_A) (base_name ?p) []))
        mod print_max_samples ?p \<noteq> 0" by code_simp
  have t0: "build_print_time ?b = 0" by code_simp
  have m: "build_print_materials (add_part_calls ?b ex_group) = [(''CFA'', 11)]" by code_simp
  from group_charged_once_per_k[OF h1 h2 h3 h4 h5 h6, of ex_build_A ?p False] h7
  have "build_print_time (add_part_calls ?b ex_group)
       = build_print_time ?b + print_time (fst (ex_group ! 0)) + print_time (fst (ex_group ! 2))"
    and "build_print_materials (snd (add_part ?p False ex_build_A)) = build_print_materials ex_build_A"
    by blast+
  then show ?thesis
    using h1 h2 h3' h4 h5 h6 h7 m t0 by simp
qed

section \<open>Ordering policy of assign_parts\<close>

lemma insort_key_wrt:
  fixes f :: "'a \<Rightarrow> int"
  assumes "sorted_wrt (\<lambda>a b. f a < f b \<or> (f a = f b \<and> R a b)) ys"
    and "\<forall>y\<in>set ys. R x y"
  shows "sorted_wrt (\<lambda>a b. f a < f b \<or> (f a = f b \<and> R a b)) (insort_key f x ys)"
  using assms
proof (induction ys)
  case Nil
  then show ?case by simp
next
  case (Cons y ys)
  show ?case
  proof (cases "f x \<le> f y")
    case True
    have "f x < f z \<or> (f x = f z \<and> R x z)" if "z \<in> set (y # ys)" for z
    proof -
      have "f y \<le> f z"
        using that Cons.prems(1) by auto
      then show ?thesis
        using True that Cons.prems(2) by auto
    qed
    then show ?thesis
      using True Cons.prems(1) by simp
  next
    case False
    then have "sorted_wrt (\<lambda>a b. f a < f b \<or> (f a = f b \<and> R a b)) (insort_key f x ys)"
      using Cons by simp
    then show ?thesis
      using False Cons.prems(1) by (auto simp: set_insort_key)
  qed
qed

lemma sort_key_wrt:
  fixes f :: "'a \<Rightarrow> int"
  assumes "sorted_wrt R xs"
  shows "sorted_wrt (\<lambda>a b. f a < f b \<or> (f a = f b \<and> R a b)) (sort_key f xs)"
  using assms
proof (induction xs)
  case Nil
  then show ?case by simp
next
  case (Cons x xs)
  then show ?case
    by (simp add: sort_key_simps insort_key_wrt)
qed

lemma sort_reverse_wrt:
  assumes "sorted_wrt R xs"
  shows "sorted_wrt (\<lambda>a b. f a > f b \<or> (f a = f b \<and> R a b)) (sort_reverse f xs)"
proof -
  have "sorted_wrt (\<lambda>a b. R b a) (rev xs)"
    using assms by (simp add: sorted_wrt_rev)
  then have "sorted_wrt (\<lambda>a b. f a < f b \<or> (f a = f b \<and> R b a)) (sort_key f (rev xs))"
    by (rule sort_key_wrt)
  then have "sorted_wrt (\<lambda>a b. f b < f a \<or> (f b = f a \<and> R a b)) (rev (sort_key f (rev xs)))"
    by (simp add: sorted_wrt_rev)
  then show ?thesis
    by (simp add: sort_reverse_def eq_commute)
qed

lemma set_sort_reverse: "set (sort_reverse f xs) = set xs"
  by (simp add: sort_reverse_def)

lemma mset_sort_reverse: "mset (sort_reverse f xs) = mset xs"
  by (simp add: sort_reverse_def)

lemma sort_reverse_stable:
  "filter (\<lambda>y. f y = v) (sort_reverse f xs) = filter (\<lambda>y. f y = v) xs"
  by (simp add: sort_reverse_def sort_key_stable flip: rev_filter)

lemma sort_reverse_descending: "sorted_wrt (\<ge>) (map f (sort_reverse f xs))"
proof -
  have "sorted (map f (sort_key f (rev xs)))"
    by simp
  then have "sorted_wrt (\<lambda>a b. b \<le> a) (rev (map f (sort_key f (rev xs))))"
    by (simp add: sorted_wrt_rev)
  then show ?thesis
    by (simp add: sort_reverse_def rev_map)
qed

lemma sort_reverse_is_stable_descending: "stable_descending_sort f xs (sort_reverse f xs)"
  by (simp add: stable_descending_sort_def mset_sort_reverse sort_reverse_descending
      sort_reverse_stable list_all_iff)

lemma fold_sorts_prio:
  assumes "sorted_wrt (prio_ge (rev seen)) ps"
  shows "sorted_wrt (prio_ge (rev (seen @ keys)))
           (fold (\<lambda>key. sort_reverse (required key)) keys ps)"
  using assms
proof (induction keys arbitrary: seen ps)
  case Nil
  then show ?case by simp
next
  case (Cons key keys)
  have "sorted_wrt (\<lambda>a b. required key a > required key b \<or> (required key a = required key b \<and> prio_ge (rev seen) a b))
          (sort_reverse (required key) ps)"
    using Cons.prems by (rule sort_reverse_wrt)
  then have "sorted_wrt (prio_ge (rev (seen @ [key]))) (sort_reverse (required key) ps)"
    by (simp add: sorted_wrt_iff_nth_less)
  from Cons.IH[OF this] show ?case
    by simp
qed

lemma sort_parts_fold:
  assumes "\<forall>p\<in>set ps. \<forall>key\<in>set keys. map_of (print_materials p) key \<noteq> None"
  shows "sort_parts keys ps = (None, fold (\<lambda>key. sort_reverse (required key)) keys ps)"
  using assms
proof (induction keys arbitrary: ps)
  case Nil
  then show ?case by simp
next
  case (Cons key keys)
  have "\<not> list_ex (\<lambda>p. map_of (print_materials p) key = None) ps"
    using Cons.prems by (simp add: list_ex_iff)
  moreover have "sort_parts keys (sort_reverse (required key) ps)
      = (None, fold (\<lambda>key. sort_reverse (required key)) keys (sort_reverse (required key) ps))"
    using Cons.prems by (intro Cons.IH) (simp add: set_sort_reverse)
  ultimately show ?case
    by (simp add: required_def[abs_def])
qed

lemma mset_fold_sorts: "mset (fold (\<lambda>key. sort_reverse (required key)) keys ps) = mset ps"
  by (induction keys arbitrary: ps) (simp_all add: mset_sort_reverse)

lemma assign_parts_list:
  assumes "builds c = b0 # bs"
  shows "fst (snd (assign_parts rnd ps k c)) = snd (sort_parts (ranked_keys (max_material b0)) ps)"
  using assms by (simp add: assign_parts_def split: prod.splits option.splits)

text \<open>
  The ordering policy, for parts that list every material. When the collection has a
  first build and every part lists every material of that build's \<open>max_material\<close>,
  \<open>assign_parts\<close> leaves the parts list as the result of one \<open>sort_reverse\<close> pass per
  key of \<open>ranked_keys\<close>, in that order; each pass is a stable descending sort; the ranked
  keys are the materials sorted stably by descending capacity; and so the final list is
  ordered with the last ranked key, the one of smallest capacity, as primary descending
  criterion and the keys ranked before it as successive tie-breakers. It is a permutation
  of the input.
\<close>

theorem assign_parts_ordering:
  assumes "builds c = b0 # bs"
    and "\<forall>p\<in>set ps. \<forall>key\<in>set (map fst (max_material b0)). map_of (print_materials p) key \<noteq> None"
  shows "fst (snd (assign_parts rnd ps k c))
           = fold (\<lambda>key. sort_reverse (required key)) (ranked_keys (max_material b0)) ps
       \<and> stable_descending_sort g xs (sort_reverse g xs)
       \<and> ranked_keys (max_material b0) = map fst (sort_reverse snd (max_material b0))
       \<and> stable_descending_sort snd (max_material b0) (sort_reverse snd (max_material b0))
       \<and> sorted_wrt (prio_ge (rev (ranked_keys (max_material b0))))
           (fst (snd (assign_parts rnd ps k c)))
       \<and> mset (fst (snd (assign_parts rnd ps k c))) = mset ps"
proof -
  have "\<forall>p\<in>set ps. \<forall>key\<in>set (ranked_keys (max_material b0)).
          map_of (print_materials p) key \<noteq> None"
    using assms(2) by (simp add: ranked_keys_def set_sort_reverse)
  then have eq: "fst (snd (assign_parts rnd ps k c))
           = fold (\<lambda>key. sort_reverse (required key)) (ranked_keys (max_material b0)) ps"
    by (simp add: assign_parts_list[OF assms(1)] sort_parts_fold)
  have "sorted_wrt (prio_ge (rev [])) ps"
    by (simp add: sorted_wrt_iff_nth_less)
  from fold_sorts_prio[OF this, of "ranked_keys (max_material b0)"]
  have "sorted_wrt (prio_ge (rev (ranked_keys (max_material b0))))
           (fold (\<lambda>key. sort_reverse (required key)) (ranked_keys (max_material b0)) ps)"
    by simp
  then show ?thesis
    by (simp add: eq mset_fold_sorts sort_reverse_is_stable_descending ranked_keys_def)
qed


theorem assign_parts_ordering_witness:
  "builds ex_collection = [new_build 0 ex_kwargs]
   \<and> list_all (\<lambda>p. list_all (\<lambda>key. map_of (print_materials p) key \<noteq> None)
                  (map fst (max_material (new_build 0 ex_kwargs))))
        [ex_part_S1, ex_part_S2, ex_part_S3]
   \<and> ranked_keys (max_material (new_build 0 ex_kwargs)) = [''OFA'', ''CFA'']
   \<and> fst (snd (assign_parts (\<lambda>n. 0) [ex_part_S1, ex_part_S2, ex_part_S3] 0 ex_collection))
       = [ex_part_S2, ex_part_S3, ex_part_S1]
   \<and> sorted_wrt (prio_ge [''CFA'', ''OFA'']) [ex_part_S2, ex_part_S3, ex_part_S1]"
proof -
  have h1: "builds ex_collection = new_build 0 ex_kwargs # []"
    by code_simp
  have h2': "list_all (\<lambda>p. list_all (\<lambda>key. map_of (print_materials p) key \<noteq> None)
                  (map fst (max_material (new_build 0 ex_kwargs))))
        [ex_part_S1, ex_part_S2, ex_part_S3]"
    by code_simp
  then have h2: "\<forall>p\<in>set [ex_part_S1, ex_part_S2, ex_part_S3].
      \<forall>key\<in>set (map fst (max_material (new_build 0 ex_kwargs))).
        map_of (print_materials p) key \<noteq> None"
    by (simp only: list_all_iff)
  have h3: "ranked_keys (max_material (new_build 0 ex_kwargs)) = [''OFA'', ''CFA'']"
    by code_simp
  have h4: "fst (snd (assign_parts (\<lambda>n. 0) [ex_part_S1, ex_part_S2, ex_part_S3] 0 ex_collection))
       = [ex_part_S2, ex_part_S3, ex_part_S1]"
    by code_simp
  from assign_parts_ordering[OF h1 h2, of "\<lambda>n. 0" 0]
  have "sorted_wrt (prio_ge (rev (ranked_keys (max_material (new_build 0 ex_kwargs)))))
          (fst (snd (assign_parts (\<lambda>n. 0) [ex_part_S1, ex_part_S2, ex_part_S3] 0 ex_collection)))"
    by blast
  then have "sorted_wrt (prio_ge [''CFA'', ''OFA'']) [ex_part_S2, ex_part_S3, ex_part_S1]"
    by (simp only: h3 h4 rev.simps append.simps)
  then show ?thesis
    using h1 h2' h3 h4 by blast
qed

text \<open>
  Claim C6. The reordering is to make the material of smallest capacity the primary
  descending key for every parts list. Line 230 reads \<open>x.print_materials[key]\<close>, so a
  part that does not list a material of \<open>max_material\<close> makes the pass for that material
  raise \<open>KeyError\<close>. With a part that lists OFA only, the pass for OFA runs, the pass for
  CFA raises, and the list is left ordered by OFA alone: S1, which needs 5 of CFA, stands
  before S2, which needs 7.
\<close>

theorem assign_parts_ordering_key_error:
  "map_of (print_materials ex_part_O20) ''CFA'' = None
   \<and> ranked_keys (max_material (new_build 0 ex_kwargs)) = [''OFA'', ''CFA'']
   \<and> fst (assign_parts (\<lambda>n. 0) [ex_part_S1, ex_part_O20, ex_part_S2] 0 ex_collection)
       = Some (KeyError ''CFA'')
   \<and> fst (snd (assign_parts (\<lambda>n. 0) [ex_part_S1, ex_part_O20, ex_part_S2] 0 ex_collection))
       = [ex_part_O20, ex_part_S1, ex_part_S2]
   \<and> required ''CFA'' ex_part_S1 = 5 \<and> required ''CFA'' ex_part_S2 = 7
   \<and> \<not> sorted_wrt (prio_ge [''CFA'', ''OFA'']) [ex_part_O20, ex_part_S1, ex_part_S2]"
  by code_simp

section \<open>Termination and coverage of assign_parts\<close>

lemma add_part_error_parts:
  assumes "fst (add_part p f b) = Some e"
  shows "parts (snd (add_part p f b)) = parts b"
proof -
  define b3 where "b3 = b\<lparr>build_batch := Some (case build_batch b of None \<Rightarrow> batch p | Some x \<Rightarrow> x),
                 build_machine := Some (case build_machine b of None \<Rightarrow> machine p | Some x \<Rightarrow> x),
                 first_part := False\<rparr>"
  have p3: "parts b3 = parts b"
    by (simp add: b3_def parts_def)
  have "snd (add_checked p i (seed_parts p b3)) = seed_parts p b3"
    if "fst (add_checked p i (seed_parts p b3)) = Some e" for i
    using that add_checked_failure[of p i "seed_parts p b3" e] by (metis prod.collapse)
  then show ?thesis
    using assms p3 by (auto simp: add_part_alt Let_def b3_def[symmetric] parts_seed split: if_splits)
qed

lemma add_part_error_kinds:
  assumes "fst (add_part p f b) = Some e"
  shows "is_RuntimeError e \<or> (e = ZeroDivisionError \<and> print_max_samples p = 0)"
proof -
  have "is_RuntimeError e \<or> (e = ZeroDivisionError \<and> print_max_samples p = 0)"
    if "fst (add_checked p i x) = Some e" for i x
    using that by (auto simp: add_checked_def Let_def split: if_splits option.splits)
  then show ?thesis
    using assms by (auto simp: add_part_alt Let_def split: if_splits)
qed

lemma add_part_first_outcome:
  assumes "first_part b"
  shows "fst (add_part p f b) = None
       \<or> (fst (add_part p f b) = Some ZeroDivisionError \<and> print_max_samples p = 0)"
proof (cases "fst (add_part p f b)")
  case None
  then show ?thesis by simp
next
  case (Some e)
  then have "\<not> is_RuntimeError e"
    using add_part_runtime_error_not_forced[of p f b e "snd (add_part p f b)"] assms
    by (auto simp: prod_eq_iff)
  then show ?thesis
    using add_part_error_kinds[OF Some] Some by simp
qed

lemma flat_update_set:
  assumes "map_of d k = Some g" and "set (map snd g) \<subseteq> set (map snd g')"
  shows "set (concat (map (\<lambda>(bn, grp). map snd grp) (AList.update k g' d)))
           = set (concat (map (\<lambda>(bn, grp). map snd grp) d)) \<union> set (map snd g')"
  using assms
proof (induction d)
  case Nil
  then show ?case by simp
next
  case (Cons x d)
  obtain k' g0 where x: "x = (k', g0)" by (cases x)
  show ?case
  proof (cases "k' = k")
    case True
    then have "g0 = g" using Cons.prems(1) x by simp
    then show ?thesis
      using True x Cons.prems(2) by auto
  next
    case False
    then have "map_of d k = Some g" using Cons.prems(1) x by simp
    from Cons.IH[OF this Cons.prems(2)] show ?thesis
      using False x by auto
  qed
qed

lemma add_part_success_parts:
  assumes "add_part p False b = (None, b')" and "first_part b \<longrightarrow> parts_dict b = []"
  shows "set (parts b') = insert p (set (parts b))"
proof -
  let ?g = "dict_get (parts_dict b) (base_name p) []"
  have pd: "parts_dict b' =
           AList.update (base_name p) (AList.update (cnd p) p ?g) (parts_dict (seed_parts p b))"
    using add_part_success(2)[OF assms(1)] .
  have sg: "map_of (parts_dict (seed_parts p b)) (base_name p) = Some ?g"
    by (rule seed_parts_group)
  have "cnd p \<notin> fst ` set ?g"
  proof (cases "first_part b")
    case True
    then show ?thesis using assms(2) by (simp add: dict_get_def)
  next
    case False
    then show ?thesis
      using assms(1)
      by (auto simp: add_part_alt Let_def add_checked_def seed_parts_dict_get
          split: if_splits option.splits)
  qed
  then have "map_of ?g (cnd p) = None"
    by (simp add: map_of_eq_None_iff)
  then have up: "AList.update (cnd p) p ?g = ?g @ [(cnd p, p)]"
    by (rule update_absent)
  have "set (parts b') = set (parts (seed_parts p b)) \<union> set (map snd (?g @ [(cnd p, p)]))"
    unfolding parts_def pd up by (rule flat_update_set[OF sg]) auto
  moreover have "set (map snd ?g) \<subseteq> set (parts (seed_parts p b))"
    using map_of_SomeD[OF sg] by (force simp: parts_def)
  ultimately show ?thesis
    by (auto simp: parts_seed)
qed


lemma fresh_empty_update:
  assumes "fresh_empty c" and "\<not> first_part b'"
  shows "fresh_empty (c\<lparr>builds := (builds c)[i := b']\<rparr>)"
proof -
  have "set ((builds c)[i := b']) \<subseteq> insert b' (set (builds c))"
    by (rule set_update_subset_insert)
  then show ?thesis
    using assms by (auto simp: fresh_empty_def list_all_iff)
qed

lemma try_add_fresh_empty:
  assumes "fresh_empty c" and "try_add p i c = (r, c')"
  shows "fresh_empty c'" and "length (builds c') = length (builds c)"
  using assms fresh_empty_update[of c "snd (add_part p False (builds c ! i))" i]
  by (auto simp: try_add_def add_part_fields split: prod.splits)

lemma try_add_error:
  assumes "try_add p i c = (Some e, c')"
  shows "stored_in c' = stored_in c"
    and "is_RuntimeError e \<or> (e = ZeroDivisionError \<and> print_max_samples p = 0)"
proof -
  have e: "fst (add_part p False (builds c ! i)) = Some e"
    and c': "c' = c\<lparr>builds := (builds c)[i := snd (add_part p False (builds c ! i))]\<rparr>"
    using assms by (auto simp: try_add_def split: prod.splits)
  have "(stored_in c)[i := set (parts (builds c ! i))] = stored_in c"
  proof (cases "i < length (builds c)")
    case True
    then have "stored_in c ! i = set (parts (builds c ! i))"
      by (simp add: stored_in_def)
    then show ?thesis
      by (metis list_update_id)
  next
    case False
    then show ?thesis by (simp add: stored_in_def list_update_beyond)
  qed
  then show "stored_in c' = stored_in c"
    using add_part_error_parts[OF e] by (simp add: c' stored_in_def map_update)
  show "is_RuntimeError e \<or> (e = ZeroDivisionError \<and> print_max_samples p = 0)"
    using add_part_error_kinds[OF e] .
qed

lemma try_add_success:
  assumes "try_add p i c = (None, c')" and "fresh_empty c" and "i < length (builds c)"
  shows "stored_in c' = (stored_in c)[i := insert p (stored_in c ! i)]"
proof -
  define b' where "b' = snd (add_part p False (builds c ! i))"
  have ok: "add_part p False (builds c ! i) = (None, b')"
    and c': "c' = c\<lparr>builds := (builds c)[i := b']\<rparr>"
    using assms(1) by (auto simp: try_add_def b'_def split: prod.splits)
  have "first_part (builds c ! i) \<longrightarrow> parts_dict (builds c ! i) = []"
    using assms(2,3) by (simp add: fresh_empty_def list_all_length)
  from add_part_success_parts[OF ok this]
  show ?thesis
    using assms(3) by (simp add: c' stored_in_def map_update)
qed

lemma assign_loop_switch:
  "assign_loop rnd p [] (Some l) k c = assign_loop rnd p l None k c"
  by (subst assign_loop.simps) simp

lemma assign_loop_spawn:
  "assign_loop rnd p [] None k c =
     (case spawn_build c of
        (i, c1) \<Rightarrow>
          (case try_add p i c1 of
             (None, c2) \<Rightarrow> (None, k, c2)
           | (Some e, c2) \<Rightarrow> (Some (if is_RuntimeError e then ValueError else e), k, c2)))"
  by (subst assign_loop.simps) simp

lemma assign_loop_try:
  assumes "eligible \<noteq> []"
  shows "assign_loop rnd p eligible lazy k c =
     (case try_add p (eligible ! (rnd k mod length eligible)) c of
        (None, c') \<Rightarrow> (None, Suc k, c')
      | (Some e, c') \<Rightarrow>
          if is_RuntimeError e
          then assign_loop rnd p
                 (remove1 (eligible ! (rnd k mod length eligible)) eligible) lazy (Suc k) c'
          else (Some e, Suc k, c'))"
  using assms by (subst assign_loop.simps) simp

lemma spawn_then_add:
  assumes "fresh_empty c" and "spawn_build c = (i, c1)" and "try_add p i c1 = (r, c2)"
  shows "fresh_empty c2"
    and "r = None \<longrightarrow> stored_in c2 = stored_in c @ [{p}]"
    and "\<forall>e. r = Some e \<longrightarrow> e = ZeroDivisionError \<and> print_max_samples p = 0"
proof -
  define nb where "nb = new_build (num_builds c) (build_kwargs c)"
  have i: "i = length (builds c)" and b1: "builds c1 = builds c @ [nb]"
    using assms(2) by (auto simp: spawn_build_def nb_def)
  have nb: "first_part nb" "parts_dict nb = []"
    by (simp_all add: nb_def new_build_def Build_def)
  have f1: "fresh_empty c1"
    using assms(1) nb by (simp add: fresh_empty_def b1)
  show "fresh_empty c2"
    using try_add_fresh_empty(1)[OF f1 assms(3)] .
  have at: "builds c1 ! i = nb" and il: "i < length (builds c1)"
    by (simp_all add: i b1)
  have s1: "stored_in c1 = stored_in c @ [{}]"
    using nb by (simp add: stored_in_def b1 parts_def)
  show "r = None \<longrightarrow> stored_in c2 = stored_in c @ [{p}]"
  proof
    assume "r = None"
    then have "try_add p i c1 = (None, c2)" using assms(3) by simp
    moreover have "i = length (stored_in c)"
      by (simp add: i stored_in_def)
    ultimately show "stored_in c2 = stored_in c @ [{p}]"
      using try_add_success[OF _ f1 il, of p c2] by (simp add: s1)
  qed
  show "\<forall>e. r = Some e \<longrightarrow> e = ZeroDivisionError \<and> print_max_samples p = 0"
  proof (intro allI impI)
    fix e assume "r = Some e"
    then have "fst (add_part p False nb) = Some e"
      using assms(3) at by (auto simp: try_add_def split: prod.splits)
    then show "e = ZeroDivisionError \<and> print_max_samples p = 0"
      using add_part_first_outcome[OF nb(1), of p False] by simp
  qed
qed


lemma added_cong:
  assumes "added p c1 c'" and "stored_in c1 = stored_in c"
    and "length (builds c1) = length (builds c)"
  shows "added p c c'"
  using assms by (simp add: added_def)

lemma assign_loop_effect:
  "fresh_empty c \<Longrightarrow> \<forall>i\<in>set eligible. i < length (builds c)
   \<Longrightarrow> \<forall>l. lazy = Some l \<longrightarrow> (\<forall>i\<in>set l. i < length (builds c))
   \<Longrightarrow> assign_loop rnd p eligible lazy k c = (r, k', c')
   \<Longrightarrow> fresh_empty c' \<and> (r = None \<longrightarrow> added p c c')
       \<and> (\<forall>e. r = Some e \<longrightarrow> e = ZeroDivisionError \<and> print_max_samples p = 0)"
proof (induction rnd p eligible lazy k c rule: assign_loop.induct)
  case (1 rnd p eligible lazy k c)
  show ?case
  proof (cases "eligible = []")
    case True
    show ?thesis
    proof (cases lazy)
      case None
      obtain i c1 where sp: "spawn_build c = (i, c1)"
        by (cases "spawn_build c")
      obtain x c2 where ta: "try_add p i c1 = (x, c2)"
        by (cases "try_add p i c1")
      note sa = spawn_then_add[OF "1.prems"(1) sp ta]
      have res: "c' = c2"
        "r = (case x of None \<Rightarrow> None
                      | Some e \<Rightarrow> Some (if is_RuntimeError e then ValueError else e))"
        using "1.prems"(4) by (auto simp: True None assign_loop_spawn sp ta split: option.splits)
      have "r = x"
        using res(2) sa(3) by (cases x) auto
      then show ?thesis
        using sa res(1) by (simp add: added_def)
    next
      case (Some l)
      have run: "assign_loop rnd p l None k c = (r, k', c')"
        using "1.prems"(4) by (simp add: True Some assign_loop_switch)
      have idx: "\<forall>i\<in>set l. i < length (builds c)"
        using "1.prems"(3) Some by simp
      show ?thesis
        using "1.IH"(1)[OF True Some "1.prems"(1) idx _ run] by simp
    qed
  next
    case False
    let ?i = "eligible ! (rnd k mod length eligible)"
    have mem: "?i \<in> set eligible"
      using False by simp
    then have il: "?i < length (builds c)"
      using "1.prems"(2) by blast
    obtain x c1 where ta: "try_add p ?i c = (x, c1)"
      by (cases "try_add p ?i c")
    note f1 = try_add_fresh_empty[OF "1.prems"(1) ta]
    show ?thesis
    proof (cases x)
      case None
      then have res: "r = None" "c' = c1"
        using "1.prems"(4) by (simp_all add: assign_loop_try[OF False] ta)
      have "stored_in c1 = (stored_in c)[?i := insert p (stored_in c ! ?i)]"
        using try_add_success[OF _ "1.prems"(1) il] ta None by simp
      then have "added p c c1"
        using il by (auto simp: added_def)
      then show ?thesis
        using res f1 by simp
    next
      case (Some e)
      note err = try_add_error[OF ta[unfolded Some]]
      show ?thesis
      proof (cases "is_RuntimeError e")
        case True
        have run: "assign_loop rnd p (remove1 ?i eligible) lazy (Suc k) c1 = (r, k', c')"
          using "1.prems"(4) by (simp add: assign_loop_try[OF False] ta Some True)
        have idx: "\<forall>i\<in>set (remove1 ?i eligible). i < length (builds c1)"
          using "1.prems"(2) f1(2) by (metis notin_set_remove1)
        have lz: "\<forall>l. lazy = Some l \<longrightarrow> (\<forall>i\<in>set l. i < length (builds c1))"
          using "1.prems"(3) f1(2) by simp
        have "fresh_empty c' \<and> (r = None \<longrightarrow> added p c1 c')
           \<and> (\<forall>e. r = Some e \<longrightarrow> e = ZeroDivisionError \<and> print_max_samples p = 0)"
          using "1.IH"(2)[OF False ta[symmetric] Some True f1(1) idx lz run] .
        then show ?thesis
          using added_cong[OF _ err(1) f1(2)] by blast
      next
        case False': False
        have "r = Some e" "c' = c1"
          using "1.prems"(4) by (simp_all add: assign_loop_try[OF False] ta Some False')
        then show ?thesis
          using err(2) False' f1 by simp
      qed
    qed
  qed
qed


lemma fb_materials_bound:
  "\<exists>bs'. fb_materials c ms (Some bs) = Inr (Some bs') \<and> set bs' \<subseteq> set bs"
proof (induction ms arbitrary: bs)
  case Nil
  then show ?case by simp
next
  case (Cons kq ms)
  obtain key q where kq: "kq = (key, q)" by (cases kq)
  let ?bs = "filter (\<lambda>i. dict_get (max_material (builds c ! i)) key 0
                       - dict_get (build_print_materials (builds c ! i)) key 0 \<ge> q) bs"
  obtain bs' where "fb_materials c ms (Some ?bs) = Inr (Some bs')" "set bs' \<subseteq> set ?bs"
    using Cons.IH[of ?bs] by blast
  then show ?case
    by (auto simp: kq)
qed

lemma filter_builds_given:
  "\<exists>xs. filter_builds c (Some bt) (Some mc) ms bn = Inr xs
        \<and> (\<forall>i\<in>set xs. i < length (builds c))"
proof (cases bn)
  case None
  let ?bs = "filter (\<lambda>i. build_machine (builds c ! i) = Some mc \<or> build_machine (builds c ! i) = None)
               (filter (\<lambda>i. build_batch (builds c ! i) = Some bt \<or> build_batch (builds c ! i) = None)
                  [0..<length (builds c)])"
  obtain bs' where "fb_materials c ms (Some ?bs) = Inr (Some bs')" "set bs' \<subseteq> set ?bs"
    using fb_materials_bound[of c ms ?bs] by blast
  then show ?thesis
    using None by (auto simp: filter_builds_def fb_batch_def fb_machine_def fb_base_name_def)
next
  case (Some a)
  then show ?thesis
    by (auto simp: filter_builds_def fb_batch_def fb_machine_def fb_base_name_def)
qed

lemma assign_part_effect:
  assumes "fresh_empty c" and "assign_part rnd p k c = (r, k', c')"
  shows "fresh_empty c' \<and> (r = None \<longrightarrow> added p c c')
       \<and> (\<forall>e. r = Some e \<longrightarrow> e = ZeroDivisionError \<and> print_max_samples p = 0)"
proof -
  obtain lz where lz: "filter_builds c (Some (batch p)) (Some (machine p)) (print_materials p) None
      = Inr lz" "\<forall>i\<in>set lz. i < length (builds c)"
    using filter_builds_given by blast
  obtain el where el: "filter_builds c (Some (batch p)) (Some (machine p)) [] (Some (base_name p))
      = Inr el" "\<forall>i\<in>set el. i < length (builds c)"
    using filter_builds_given by blast
  have "assign_loop rnd p el (Some lz) k c = (r, k', c')"
    using assms(2) by (simp add: assign_part_def lz(1) el(1))
  from assign_loop_effect[OF assms(1) el(2) _ this] lz(2)
  show ?thesis by simp
qed

lemma stored_count_alt: "stored_count c q = length (filter (\<lambda>S. q \<in> S) (stored_in c))"
  by (simp add: stored_count_def stored_in_def filter_map comp_def)

lemma count_update:
  "i < length xs \<Longrightarrow>
     length (filter P (xs[i := y])) + (if P (xs ! i) then 1 else 0)
       = length (filter P xs) + (if P y then 1 else 0)"
proof (induction xs arbitrary: i)
  case Nil
  then show ?case by simp
next
  case (Cons x xs)
  then show ?case
    by (cases i) auto
qed

lemma added_counts:
  assumes "added p c c'" and "stored_count c p = 0"
  shows "stored_count c' q = stored_count c q + (if q = p then 1 else 0)"
proof -
  have none: "p \<notin> S" if "S \<in> set (stored_in c)" for S
  proof
    assume "p \<in> S"
    then have "S \<in> set (filter (\<lambda>S. p \<in> S) (stored_in c))"
      using that by simp
    then have "filter (\<lambda>S. p \<in> S) (stored_in c) \<noteq> []"
      by (metis empty_iff empty_set)
    then show False
      using assms(2) by (simp add: stored_count_alt)
  qed
  from assms(1) consider
      i where "i < length (builds c)" "stored_in c' = (stored_in c)[i := insert p (stored_in c ! i)]"
    | "stored_in c' = stored_in c @ [{p}]"
    by (auto simp: added_def)
  then show ?thesis
  proof cases
    case 1
    have il: "i < length (stored_in c)"
      using 1(1) by (simp add: stored_in_def)
    then have "p \<notin> stored_in c ! i"
      using none by simp
    then show ?thesis
      using count_update[OF il, of "\<lambda>S. q \<in> S" "insert p (stored_in c ! i)"]
      by (auto simp: stored_count_alt 1(2) split: if_splits)
  next
    case 2
    then show ?thesis
      by (simp add: stored_count_alt)
  qed
qed

lemma assign_each_effect:
  assumes "fresh_empty c" and "distinct ps" and "\<forall>p\<in>set ps. stored_count c p = 0"
    and "assign_each rnd ps k c = (r, k', c')"
  shows "fresh_empty c'
       \<and> (r = None \<longrightarrow>
            (\<forall>q. stored_count c' q = stored_count c q + (if q \<in> set ps then 1 else 0)))
       \<and> (\<forall>e. r = Some e \<longrightarrow>
            e = ZeroDivisionError \<and> (\<exists>p\<in>set ps. print_max_samples p = 0))"
  using assms
proof (induction ps arbitrary: k c)
  case Nil
  then show ?case by simp
next
  case (Cons p ps)
  obtain r1 k1 c1 where ap: "assign_part rnd p k c = (r1, k1, c1)"
    by (cases "assign_part rnd p k c")
  note eff = assign_part_effect[OF Cons.prems(1) ap]
  show ?case
  proof (cases r1)
    case None
    have run: "assign_each rnd ps k1 c1 = (r, k', c')"
      using Cons.prems(4) by (simp add: ap None)
    have cnt: "stored_count c1 q = stored_count c q + (if q = p then 1 else 0)" for q
      using added_counts[of p c c1 q] eff None Cons.prems(3) by simp
    have zero: "\<forall>q\<in>set ps. stored_count c1 q = 0"
      using Cons.prems(2,3) by (auto simp: cnt)
    have "fresh_empty c'
       \<and> (r = None \<longrightarrow>
            (\<forall>q. stored_count c' q = stored_count c1 q + (if q \<in> set ps then 1 else 0)))
       \<and> (\<forall>e. r = Some e \<longrightarrow>
            e = ZeroDivisionError \<and> (\<exists>p\<in>set ps. print_max_samples p = 0))"
      using Cons.IH[OF _ _ zero run] eff Cons.prems(2) by simp
    then show ?thesis
      using Cons.prems(2) by (auto simp: cnt)
  next
    case (Some e)
    then have "r = Some e" "c' = c1"
      using Cons.prems(4) by (simp_all add: ap)
    then show ?thesis
      using eff Some by simp
  qed
qed

lemma sort_parts_effect:
  assumes "sort_parts keys ps = (r, ps')"
  shows "set ps' = set ps \<and> distinct ps' = distinct ps
       \<and> (\<forall>e. r = Some e \<longrightarrow>
            (\<exists>key\<in>set keys. e = KeyError key
               \<and> (\<exists>p\<in>set ps. map_of (print_materials p) key = None)))"
  using assms
proof (induction keys arbitrary: ps)
  case Nil
  then show ?case by simp
next
  case (Cons key keys)
  show ?case
  proof (cases "list_ex (\<lambda>p. map_of (print_materials p) key = None) ps")
    case True
    then show ?thesis
      using Cons.prems by (auto simp: list_ex_iff)
  next
    case False
    let ?ps = "sort_reverse (\<lambda>p. dict_get (print_materials p) key 0) ps"
    have "sort_parts keys ?ps = (r, ps')"
      using Cons.prems False by simp
    from Cons.IH[OF this] show ?thesis
      by (simp add: sort_reverse_def)
  qed
qed


lemma new_build_fields:
  "first_part (new_build i kw)" "parts_dict (new_build i kw) = []"
  "max_material (new_build i kw)
     = (case kw_max_material kw of None \<Rightarrow> default_max_material | Some mm \<Rightarrow> mm)"
  by (simp_all add: new_build_def Build_def)

lemma BuildCollection_fresh:
  "fresh_empty (BuildCollection n kw)" "stored_count (BuildCollection n kw) q = 0"
  by (simp_all add: fresh_empty_def stored_count_def BuildCollection_def list_all_iff
      new_build_fields parts_def)

lemma BuildCollection_builds:
  "builds (BuildCollection n kw) = [] \<longleftrightarrow> n \<le> 0"
  "builds (BuildCollection n kw) = b0 # bs \<Longrightarrow> b0 = new_build 0 kw"
proof -
  show "builds (BuildCollection n kw) = [] \<longleftrightarrow> n \<le> 0"
    by (simp add: BuildCollection_def)
  assume "builds (BuildCollection n kw) = b0 # bs"
  then have "map (\<lambda>i. new_build (int i) kw) [0..<nat n] = b0 # bs"
    by (simp add: BuildCollection_def)
  moreover from this have "0 < nat n"
    by (cases "nat n") simp_all
  ultimately show "b0 = new_build 0 kw"
    by (simp add: upt_conv_Cons)
qed

text \<open>
  Coverage, under the conditions the code needs. \<open>assign_loop\<close> is a total function (its
  termination is proved with its definition: each iteration drops the lazy list or removes
  a candidate), so \<open>assign_parts\<close> ends for every list of parts and every outcome \<open>rnd\<close>
  of the random choices. On a collection as \<open>BuildCollection\<close> constructs it and a list
  of distinct parts: when \<open>assign_parts\<close> returns, every part of the list is stored in
  exactly one build and nothing else is stored; an exception that reaches the caller is
  never one of the \<open>RuntimeError\<close>s of \<open>add_part\<close>, it is the \<open>IndexError\<close> of
  \<open>builds[0]\<close> on an empty collection, the \<open>KeyError\<close> of the sort for a part that lacks
  a material of \<open>max_material\<close>, or the \<open>ZeroDivisionError\<close> of a part with
  \<open>print_max_samples\<close> zero; and without these three the call returns.
\<close>

theorem assign_parts_assigns_each_part_once:
  assumes "distinct ps"
    and "assign_parts rnd ps k (BuildCollection n kw) = (r, ps', k', c')"
  shows "(r = None \<longrightarrow>
            (\<forall>p\<in>set ps. stored_count c' p = 1) \<and> (\<forall>q. q \<notin> set ps \<longrightarrow> stored_count c' q = 0))
       \<and> (\<forall>e. r = Some e \<longrightarrow>
            \<not> is_RuntimeError e \<and>
            ((e = IndexError \<and> n \<le> 0)
             \<or> (\<exists>key\<in>set (map fst (case kw_max_material kw of None \<Rightarrow> default_max_material
                                                                | Some mm \<Rightarrow> mm)).
                   e = KeyError key \<and> (\<exists>p\<in>set ps. map_of (print_materials p) key = None))
             \<or> (e = ZeroDivisionError \<and> (\<exists>p\<in>set ps. print_max_samples p = 0))))
       \<and> (0 < n
           \<and> (\<forall>p\<in>set ps. print_max_samples p \<noteq> 0
                 \<and> (\<forall>key\<in>set (map fst (case kw_max_material kw of None \<Rightarrow> default_max_material
                                                                    | Some mm \<Rightarrow> mm)).
                       map_of (print_materials p) key \<noteq> None))
           \<longrightarrow> r = None)"
proof -
  define c0 where "c0 = BuildCollection n kw"
  define mm where "mm = (case kw_max_material kw of None \<Rightarrow> default_max_material | Some mm \<Rightarrow> mm)"
  have cases: "(r = None \<and> (\<forall>q. stored_count c' q = (if q \<in> set ps then 1 else 0)))
      \<or> (r = Some IndexError \<and> n \<le> 0)
      \<or> (\<exists>key\<in>set (map fst mm). r = Some (KeyError key)
            \<and> (\<exists>p\<in>set ps. map_of (print_materials p) key = None))
      \<or> (r = Some ZeroDivisionError \<and> (\<exists>p\<in>set ps. print_max_samples p = 0))"
  proof (cases "builds c0")
    case Nil
    then have "n \<le> 0"
      using BuildCollection_builds(1)[of n kw] by (simp add: c0_def)
    moreover have "r = Some IndexError"
      using assms(2) Nil by (simp add: assign_parts_def c0_def[symmetric])
    ultimately show ?thesis by simp
  next
    case (Cons b0 bs)
    then have b0: "max_material b0 = mm"
      using BuildCollection_builds(2)[of n kw b0 bs] by (simp add: c0_def mm_def new_build_fields)
    obtain r1 ps1 where sp: "sort_parts (ranked_keys mm) ps = (r1, ps1)"
      by (cases "sort_parts (ranked_keys mm) ps")
    note se = sort_parts_effect[OF sp]
    have keys: "set (ranked_keys mm) = set (map fst mm)"
      by (simp add: ranked_keys_def sort_reverse_def)
    show ?thesis
    proof (cases r1)
      case (Some e)
      then have "r = Some e"
        using assms(2) Cons by (simp add: assign_parts_def c0_def[symmetric] b0 sp)
      then show ?thesis
        using se Some keys by auto
    next
      case None
      obtain r2 k2 c2 where ae: "assign_each rnd ps1 k c0 = (r2, k2, c2)"
        by (cases "assign_each rnd ps1 k c0")
      have res: "r = r2" "c' = c2"
        using assms(2) Cons by (simp_all add: assign_parts_def c0_def[symmetric] b0 sp None ae)
      have d1: "distinct ps1" and s1: "set ps1 = set ps"
        using se assms(1) by simp_all
      have z: "\<forall>p\<in>set ps1. stored_count c0 p = 0"
        by (simp add: c0_def BuildCollection_fresh)
      have f: "fresh_empty c0"
        by (simp add: c0_def BuildCollection_fresh)
      from assign_each_effect[OF f d1 z ae]
      show ?thesis
        by (cases r2) (simp_all add: res s1 c0_def BuildCollection_fresh)
    qed
  qed
  have a: "r = None \<longrightarrow>
            (\<forall>p\<in>set ps. stored_count c' p = 1) \<and> (\<forall>q. q \<notin> set ps \<longrightarrow> stored_count c' q = 0)"
    using cases by auto
  have b: "\<forall>e. r = Some e \<longrightarrow>
            \<not> is_RuntimeError e \<and>
            ((e = IndexError \<and> n \<le> 0)
             \<or> (\<exists>key\<in>set (map fst mm).
                   e = KeyError key \<and> (\<exists>p\<in>set ps. map_of (print_materials p) key = None))
             \<or> (e = ZeroDivisionError \<and> (\<exists>p\<in>set ps. print_max_samples p = 0)))"
    using cases by auto
  have c: "r = None"
    if ok: "0 < n \<and> (\<forall>p\<in>set ps. print_max_samples p \<noteq> 0
                 \<and> (\<forall>key\<in>set (map fst mm). map_of (print_materials p) key \<noteq> None))"
  proof (rule ccontr)
    assume "r \<noteq> None"
    then obtain e where e: "r = Some e" by auto
    from b e consider "e = IndexError \<and> n \<le> 0"
      | key p where "key \<in> set (map fst mm)" "p \<in> set ps" "map_of (print_materials p) key = None"
      | p where "p \<in> set ps" "print_max_samples p = 0"
      by blast
    then show False
    proof cases
      case 1
      then show ?thesis using ok by simp
    next
      case 2
      then show ?thesis using ok by blast
    next
      case 3
      then show ?thesis using ok by blast
    qed
  qed
  show ?thesis
    unfolding mm_def[symmetric]
    using a b c by blast
qed


theorem assign_parts_assigns_each_part_once_witness:
  "distinct ex_parts \<and> (0::int) < 1
   \<and> list_all (\<lambda>p. print_max_samples p \<noteq> 0
                  \<and> list_all (\<lambda>key. map_of (print_materials p) key \<noteq> None)
                        (map fst default_max_material)) ex_parts
   \<and> fst (assign_parts (\<lambda>n. 0) ex_parts 0 (BuildCollection 1 ex_kwargs)) = None
   \<and> list_all (\<lambda>p. stored_count
                      (snd (snd (snd (assign_parts (\<lambda>n. 0) ex_parts 0 (BuildCollection 1 ex_kwargs)))))
                      p = 1) ex_parts
   \<and> map parts (builds (snd (snd (snd (assign_parts (\<lambda>n. 0) ex_parts 0
                                          (BuildCollection 1 ex_kwargs))))))
       = [ex_part_S4, ex_part_S3] # [ex_part_S2, ex_part_S1] # []"
proof -
  let ?R = "assign_parts (\<lambda>n. 0) ex_parts 0 (BuildCollection 1 ex_kwargs)"
  have h1: "distinct ex_parts" by code_simp
  have h2: "?R = (fst ?R, fst (snd ?R), fst (snd (snd ?R)), snd (snd (snd ?R)))"
    by simp
  have h3: "list_all (\<lambda>p. print_max_samples p \<noteq> 0
                  \<and> list_all (\<lambda>key. map_of (print_materials p) key \<noteq> None)
                        (map fst default_max_material)) ex_parts"
    by code_simp
  have kw: "kw_max_material ex_kwargs = None" by code_simp
  have h4: "map parts (builds (snd (snd (snd ?R))))
       = [ex_part_S4, ex_part_S3] # [ex_part_S2, ex_part_S1] # []"
    by code_simp
  note main = assign_parts_assigns_each_part_once[OF h1 h2]
  have ok: "(0::int) < 1 \<and> (\<forall>p\<in>set ex_parts. print_max_samples p \<noteq> 0
                 \<and> (\<forall>key\<in>set (map fst (case kw_max_material ex_kwargs of
                                            None \<Rightarrow> default_max_material | Some mm \<Rightarrow> mm)).
                       map_of (print_materials p) key \<noteq> None))"
    using h3 by (simp add: kw list_all_iff)
  with main have r: "fst ?R = None"
    by blast
  with main have "\<forall>p\<in>set ex_parts. stored_count (snd (snd (snd ?R))) p = 1"
    by blast
  then have "list_all (\<lambda>p. stored_count (snd (snd (snd ?R))) p = 1) ex_parts"
    by (simp only: list_all_iff)
  then show ?thesis
    using h1 h3 h4 r by simp
qed

text \<open>
  Claim C3. \<open>assign_parts\<close> is to place every part of the list in exactly one build.
  The sort of line 230 reads \<open>x.print_materials[key]\<close> for every material of the first
  build's \<open>max_material\<close>, so a part that does not list one of them makes the call raise
  \<open>KeyError\<close> before any part is assigned: for the single part A, which lists CFA only,
  against the default capacities nothing is stored, although \<open>assign_part\<close> alone places
  the same part.
\<close>

theorem assign_parts_key_error:
  "map_of (print_materials ex_part_A) ''OFA'' = None
   \<and> assign_parts (\<lambda>n. 0) [ex_part_A] 0 (BuildCollection 1 ex_kwargs)
       = (Some (KeyError ''OFA''), [ex_part_A], 0, BuildCollection 1 ex_kwargs)
   \<and> stored_count (BuildCollection 1 ex_kwargs) ex_part_A = 0
   \<and> fst (assign_part (\<lambda>n. 0) ex_part_A 0 (BuildCollection 1 ex_kwargs)) = None
   \<and> stored_count ex_collection_A ex_part_A = 1"
  by code_simp

end
